theory Spec2Isabelle
  imports Main "HOL-Library.AList"
begin

section \<open>JavaScript values and the browser\<close>

text \<open>
  The page \<^verbatim>\<open>AddDistributor.jsx\<close> is a React component. Its logic is embedded as
  functions on a record of the component's state variables; the calls it makes to the
  browser (\<^verbatim>\<open>localStorage\<close>, \<^verbatim>\<open>JSON\<close>, \<^verbatim>\<open>window.confirm\<close>,
  \<^verbatim>\<open>setTimeout\<close>) are explicit inputs and outputs.

  A JavaScript string is a \<^typ>\<open>string\<close>: one \<^typ>\<open>char\<close> per code unit, for
  code units below 256. The empty string is the only falsy string.
\<close>

text \<open>The exceptions that the calls made by the component can throw.\<close>

datatype js_error = SyntaxError | SecurityError | QuotaExceededError

text \<open>
  The values \<^verbatim>\<open>JSON.parse\<close> returns. Numbers are the integers: the component
  creates no other number, and the initial load looks at no number. An object keeps its
  properties in order.
\<close>

datatype json =
    JNull
  | JBool bool
  | JNum int
  | JStr string
  | JArr "json list"
  | JObj "(string \<times> json) list"

text \<open>\<^verbatim>\<open>Array.isArray\<close>.\<close>

fun isArray :: "json \<Rightarrow> bool" where
  "isArray (JArr xs) = True"
| "isArray v = False"

text \<open>
  A JavaScript number is an IEEE 754 double. The numbers of the page hold integers, and
  the double nearest to an integer \<open>x\<close> is \<open>round_double x\<close>: with \<open>u\<close> the distance
  between the doubles at the magnitude of \<open>x\<close>, the multiple of \<open>u\<close> nearest to \<open>x\<close>,
  and of two equally near ones the even multiple. \<open>spacing a\<close> is that distance: 1 below
  \<open>2^53\<close>, 2 from \<open>2^53\<close>, 4 from \<open>2^54\<close>, and so on. A sum of two numbers is their
  exact sum, rounded. The maximum of numbers is one of them and is not rounded.
\<close>

function spacing :: "int \<Rightarrow> int" where
  "spacing a = (if a < 2 ^ 53 then 1 else 2 * spacing (a div 2))"
  by pat_completeness auto
termination
  by (relation "measure nat") auto

declare spacing.simps [simp del]

definition round_double :: "int \<Rightarrow> int" where
  "round_double x =
     (let a = \<bar>x\<bar>;
          u = spacing a;
          q = a div u;
          r = a mod u;
          q' = (if 2 * r < u \<or> (2 * r = u \<and> even q) then q else q + 1)
      in sgn x * (q' * u))"

definition js_add :: "int \<Rightarrow> int \<Rightarrow> int" where
  "js_add x y = round_double (x + y)"

text \<open>
  \<^verbatim>\<open>String.prototype.trim\<close> removes white space and line terminators from both
  ends. Below 256 these are TAB, LF, VT, FF, CR, SPACE and NO-BREAK SPACE.
\<close>

definition is_white_space :: "char \<Rightarrow> bool" where
  "is_white_space ch \<longleftrightarrow>
     ch \<in> {CHR 0x09, CHR 0x0A, CHR 0x0B, CHR 0x0C, CHR 0x0D, CHR 0x20, CHR 0xA0}"

definition trim :: "string \<Rightarrow> string" where
  "trim s = rev (dropWhile is_white_space (rev (dropWhile is_white_space s)))"

text \<open>
  \<^verbatim>\<open>localStorage\<close>: a map from keys to texts. Whether the browser refuses access
  (every call throws) or has no room left (\<^verbatim>\<open>setItem\<close> throws) is a property of the
  browser, kept as two flags.
\<close>

record localStorage =
  items :: "string \<Rightarrow> string option"
  blocked :: bool
  full :: bool

definition getItem :: "localStorage \<Rightarrow> string \<Rightarrow> js_error + string option" where
  "getItem ls k = (if blocked ls then Inl SecurityError else Inr (items ls k))"

definition setItem :: "localStorage \<Rightarrow> string \<Rightarrow> string \<Rightarrow> js_error + localStorage" where
  "setItem ls k v =
     (if blocked ls then Inl SecurityError
      else if full ls then Inl QuotaExceededError
      else Inr (ls\<lparr>items := (items ls)(k \<mapsto> v)\<rparr>))"

section \<open>JSON texts\<close>

text \<open>
  A model of the texts that \<^verbatim>\<open>JSON.stringify\<close> writes and \<^verbatim>\<open>JSON.parse\<close> reads.
  \<open>stringify\<close> is \<^verbatim>\<open>JSON.stringify\<close> with one argument, on the values that
  \<open>modelled\<close> holds of: their integers are at most \<open>2^53\<close> in absolute value, which
  JavaScript prints by their decimal digits, and their objects have distinct property
  names none of which is a string of digits, so that the properties are printed in the
  order of the list. A string is printed between double quotes, with the escapes of
  \<^verbatim>\<open>JSON.stringify\<close>: a backslash before a double quote and a backslash, the short
  escapes of backspace, form feed, line feed, carriage return and tab, and the escape
  \<^verbatim>\<open>u00\<close> with two lower-case hexadecimal digits for the other code units below 32.
\<close>

definition is_digit :: "char \<Rightarrow> bool" where
  "is_digit ch \<longleftrightarrow> 48 \<le> (of_char ch :: nat) \<and> (of_char ch :: nat) \<le> 57"

definition digit_char :: "int \<Rightarrow> char" where
  "digit_char n = char_of (nat (48 + n))"

definition digit_value :: "char \<Rightarrow> int" where
  "digit_value ch = int (of_char ch) - 48"

function show_digits :: "int \<Rightarrow> string" where
  "show_digits n =
     (if n < 10 then [digit_char n] else show_digits (n div 10) @ [digit_char (n mod 10)])"
  by pat_completeness auto
termination
  by (relation "measure nat") auto

declare show_digits.simps [simp del]

definition show_int :: "int \<Rightarrow> string" where
  "show_int i = (if i < 0 then CHR ''-'' # show_digits (- i) else show_digits i)"

definition hex_char :: "nat \<Rightarrow> char" where
  "hex_char n = (if n < 10 then char_of (48 + n) else char_of (87 + n))"

definition escape :: "char \<Rightarrow> string" where
  "escape ch =
     (if ch = CHR 0x22 then [CHR 0x5C, CHR 0x22]
      else if ch = CHR 0x5C then [CHR 0x5C, CHR 0x5C]
      else if ch = CHR 0x08 then [CHR 0x5C, CHR ''b'']
      else if ch = CHR 0x0C then [CHR 0x5C, CHR ''f'']
      else if ch = CHR 0x0A then [CHR 0x5C, CHR ''n'']
      else if ch = CHR 0x0D then [CHR 0x5C, CHR ''r'']
      else if ch = CHR 0x09 then [CHR 0x5C, CHR ''t'']
      else if (of_char ch :: nat) < 32
        then [CHR 0x5C, CHR ''u'', CHR ''0'', CHR ''0'',
              hex_char (of_char ch div 16), hex_char (of_char ch mod 16)]
      else [ch])"

definition quote :: "string \<Rightarrow> string" where
  "quote s = CHR 0x22 # concat (map escape s) @ [CHR 0x22]"

fun commas :: "string list \<Rightarrow> string" where
  "commas [] = []"
| "commas [x] = x"
| "commas (x # y # ys) = x @ CHR '','' # commas (y # ys)"

fun stringify :: "json \<Rightarrow> string" where
  "stringify JNull = ''null''"
| "stringify (JBool b) = (if b then ''true'' else ''false'')"
| "stringify (JNum i) = show_int i"
| "stringify (JStr s) = quote s"
| "stringify (JArr xs) = CHR ''['' # commas (map stringify xs) @ '']''"
| "stringify (JObj kvs) =
     CHR ''{'' # commas (map (\<lambda>(k, v). quote k @ CHR '':'' # stringify v) kvs) @ ''}''"

text \<open>
  \<open>parse\<close> reads the compact texts: a value of the JSON grammar with no white space,
  whose numbers are integers of at most \<open>2^53\<close> in absolute value, written without
  fraction or exponent and other than \<^verbatim>\<open>-0\<close>, whose \<^verbatim>\<open>u\<close> escapes are below 256,
  and whose objects have distinct property names none of which is a string of digits.
  On such a text \<^verbatim>\<open>JSON.parse\<close> returns the value that \<open>parse\<close> gives; on any
  other text, valid JSON or not, \<open>parse\<close> gives \<open>None\<close> and says nothing about
  \<^verbatim>\<open>JSON.parse\<close>. The first argument of \<open>parse_value\<close> bounds the depth of the
  recursion; the length of the text is enough.
\<close>

definition is_hex :: "char \<Rightarrow> bool" where
  "is_hex ch \<longleftrightarrow> is_digit ch \<or> (97 \<le> (of_char ch :: nat) \<and> (of_char ch :: nat) \<le> 102)
     \<or> (65 \<le> (of_char ch :: nat) \<and> (of_char ch :: nat) \<le> 70)"

definition hex_value :: "char \<Rightarrow> nat" where
  "hex_value ch =
     (if is_digit ch then of_char ch - 48
      else if 97 \<le> (of_char ch :: nat) then of_char ch - 87
      else of_char ch - 55)"

definition unescape :: "char \<Rightarrow> char option" where
  "unescape e =
     (if e = CHR 0x22 then Some (CHR 0x22)
      else if e = CHR 0x5C then Some (CHR 0x5C)
      else if e = CHR ''/'' then Some (CHR ''/'')
      else if e = CHR ''b'' then Some (CHR 0x08)
      else if e = CHR ''f'' then Some (CHR 0x0C)
      else if e = CHR ''n'' then Some (CHR 0x0A)
      else if e = CHR ''r'' then Some (CHR 0x0D)
      else if e = CHR ''t'' then Some (CHR 0x09)
      else None)"

fun parse_chars :: "string \<Rightarrow> (string \<times> string) option" where
  "parse_chars [] = None"
| "parse_chars (ch # s) =
     (if ch = CHR 0x22 then Some ([], s)
      else if ch = CHR 0x5C then
        (case s of
           [] \<Rightarrow> None
         | e # s1 \<Rightarrow>
             if e = CHR ''u'' then
               (case s1 of
                  h1 # h2 # h3 # h4 # s2 \<Rightarrow>
                    if h1 = CHR ''0'' \<and> h2 = CHR ''0'' \<and> is_hex h3 \<and> is_hex h4
                    then map_option (apfst ((#) (char_of (16 * hex_value h3 + hex_value h4))))
                           (parse_chars s2)
                    else None
                | _ \<Rightarrow> None)
             else
               (case unescape e of
                  None \<Rightarrow> None
                | Some c \<Rightarrow> map_option (apfst ((#) c)) (parse_chars s1)))
      else if (of_char ch :: nat) < 32 then None
      else map_option (apfst ((#) ch)) (parse_chars s))"

definition parse_nat :: "string \<Rightarrow> (int \<times> string) option" where
  "parse_nat s =
     (case takeWhile is_digit s of
        [] \<Rightarrow> None
      | d # ds \<Rightarrow>
          if d = CHR ''0'' \<and> ds \<noteq> [] then None
          else Some (foldl (\<lambda>a ch. 10 * a + digit_value ch) 0 (d # ds), dropWhile is_digit s))"

definition parse_number :: "string \<Rightarrow> (json \<times> string) option" where
  "parse_number s =
     (case s of
        [] \<Rightarrow> None
      | ch # s' \<Rightarrow>
          if ch = CHR ''-'' then
            (case parse_nat s' of
               None \<Rightarrow> None
             | Some (n, r) \<Rightarrow> if 0 < n \<and> n \<le> 2 ^ 53 then Some (JNum (- n), r) else None)
          else
            (case parse_nat s of
               None \<Rightarrow> None
             | Some (n, r) \<Rightarrow> if n \<le> 2 ^ 53 then Some (JNum n, r) else None))"

definition all_digits :: "string \<Rightarrow> bool" where
  "all_digits k \<longleftrightarrow> k \<noteq> [] \<and> list_all is_digit k"

definition keys_ok :: "string list \<Rightarrow> bool" where
  "keys_ok ks \<longleftrightarrow> distinct ks \<and> list_all (\<lambda>k. \<not> all_digits k) ks"

fun parse_value :: "nat \<Rightarrow> string \<Rightarrow> (json \<times> string) option"
  and parse_elements :: "nat \<Rightarrow> string \<Rightarrow> (json list \<times> string) option"
  and parse_members :: "nat \<Rightarrow> string \<Rightarrow> ((string \<times> json) list \<times> string) option" where
  "parse_value 0 s = None"
| "parse_value (Suc f) s =
     (case s of
        [] \<Rightarrow> None
      | ch # s' \<Rightarrow>
          if ch = CHR ''['' then
            (case s' of
               [] \<Rightarrow> None
             | ch' # s'' \<Rightarrow>
                 if ch' = CHR '']'' then Some (JArr [], s'')
                 else map_option (apfst JArr) (parse_elements f s'))
          else if ch = CHR ''{'' then
            (case s' of
               [] \<Rightarrow> None
             | ch' # s'' \<Rightarrow>
                 if ch' = CHR ''}'' then Some (JObj [], s'')
                 else
                   (case parse_members f s' of
                      None \<Rightarrow> None
                    | Some (kvs, r) \<Rightarrow> if keys_ok (map fst kvs) then Some (JObj kvs, r) else None))
          else if ch = CHR 0x22 then map_option (apfst JStr) (parse_chars s')
          else if take 4 s = ''null'' then Some (JNull, drop 4 s)
          else if take 4 s = ''true'' then Some (JBool True, drop 4 s)
          else if take 5 s = ''false'' then Some (JBool False, drop 5 s)
          else parse_number s)"
| "parse_elements 0 s = None"
| "parse_elements (Suc f) s =
     (case parse_value f s of
        None \<Rightarrow> None
      | Some (v, r) \<Rightarrow>
          (case r of
             [] \<Rightarrow> None
           | ch # r' \<Rightarrow>
               if ch = CHR '']'' then Some ([v], r')
               else if ch = CHR '','' then map_option (apfst ((#) v)) (parse_elements f r')
               else None))"
| "parse_members 0 s = None"
| "parse_members (Suc f) s =
     (case s of
        [] \<Rightarrow> None
      | ch # s' \<Rightarrow>
          if ch \<noteq> CHR 0x22 then None
          else
            (case parse_chars s' of
               None \<Rightarrow> None
             | Some (k, r) \<Rightarrow>
                 (case r of
                    [] \<Rightarrow> None
                  | c1 # r1 \<Rightarrow>
                      if c1 \<noteq> CHR '':'' then None
                      else
                        (case parse_value f r1 of
                           None \<Rightarrow> None
                         | Some (v, r2) \<Rightarrow>
                             (case r2 of
                                [] \<Rightarrow> None
                              | c2 # r3 \<Rightarrow>
                                  if c2 = CHR ''}'' then Some ([(k, v)], r3)
                                  else if c2 = CHR '','' then
                                    map_option (apfst ((#) (k, v))) (parse_members f r3)
                                  else None)))))"

definition parse :: "string \<Rightarrow> json option" where
  "parse raw =
     (case parse_value (length raw) raw of
        None \<Rightarrow> None
      | Some (v, r) \<Rightarrow> if r = [] then Some v else None)"

text \<open>The values on which \<open>stringify\<close> is \<^verbatim>\<open>JSON.stringify\<close>.\<close>

fun modelled :: "json \<Rightarrow> bool" where
  "modelled (JNum i) \<longleftrightarrow> \<bar>i\<bar> \<le> 2 ^ 53"
| "modelled (JArr xs) \<longleftrightarrow> list_all modelled xs"
| "modelled (JObj kvs) \<longleftrightarrow> keys_ok (map fst kvs) \<and> list_all (\<lambda>kv. modelled (snd kv)) kvs"
| "modelled v \<longleftrightarrow> True"

text \<open>
  Two notions for the proofs: a rest of a text that does not go on with a digit, and the
  text of one property of an object.
\<close>

definition delimited :: "string \<Rightarrow> bool" where
  "delimited r \<longleftrightarrow> (case r of [] \<Rightarrow> True | ch # r' \<Rightarrow> \<not> is_digit ch)"

definition member_text :: "string \<times> json \<Rightarrow> string" where
  "member_text kv = quote (fst kv) @ CHR '':'' # stringify (snd kv)"

section \<open>Constants of the page\<close>

definition STORAGE_KEY :: string where
  "STORAGE_KEY = ''egg_distributors_v1''"

record access_module =
  key :: string
  title :: string
  desc :: string

definition ACCESS_MODULES :: "access_module list" where
  "ACCESS_MODULES =
    [\<lparr>key = ''dailySales'', title = ''Daily Sales'', desc = ''Manage daily egg sales records.''\<rparr>,
     \<lparr>key = ''digitalPayments'', title = ''Digital Payments'', desc = ''Process UPI and card payments.''\<rparr>,
     \<lparr>key = ''cashPayments'', title = ''Cash Payments'', desc = ''Log and verify cash transactions.''\<rparr>,
     \<lparr>key = ''outlets'', title = ''Outlets'', desc = ''Manage distribution outlets.''\<rparr>,
     \<lparr>key = ''reports'', title = ''Reports'', desc = ''View analytics and downloads.''\<rparr>]"

text \<open>
  A distributor record, the object \<^verbatim>\<open>{id, fullName, phone, username, module}\<close>. The
  selectors carry the prefix \<open>d_\<close> (the source writes \<^verbatim>\<open>d.id\<close>, \<^verbatim>\<open>d.module\<close>);
  \<open>d_id\<close> is a JavaScript number holding an integer; the id that \<^verbatim>\<open>handleSave\<close>
  computes is a sum of doubles, \<open>js_add\<close>.
\<close>

record distributor =
  d_id :: int
  d_fullName :: string
  d_phone :: string
  d_username :: string
  d_module :: string

definition SAMPLE :: "distributor list" where
  "SAMPLE =
    [\<lparr>d_id = 1, d_fullName = ''Karthik Rao'', d_phone = ''+91 98765 12345'',
      d_username = ''karthik.rao'', d_module = ''dailySales''\<rparr>]"

text \<open>
  The JavaScript object of a record, with its properties in the order of the object
  literals in \<^verbatim>\<open>SAMPLE\<close> and \<^verbatim>\<open>handleSave\<close>.
\<close>

definition distributor_json :: "distributor \<Rightarrow> json" where
  "distributor_json d =
     JObj [(''id'', JNum (d_id d)),
           (''fullName'', JStr (d_fullName d)),
           (''phone'', JStr (d_phone d)),
           (''username'', JStr (d_username d)),
           (''module'', JStr (d_module d))]"

section \<open>The component\<close>

text \<open>
  The state variables of \<^verbatim>\<open>AddDistributor\<close>. \<open>errors\<close> is the object built by
  \<^verbatim>\<open>validate\<close>, a list of properties in the order of their assignment.
  \<open>timeouts\<close> counts the callbacks handed to \<^verbatim>\<open>setTimeout\<close> that have not run yet;
  each of them calls \<^verbatim>\<open>resetForm\<close>.
\<close>

record component =
  distributors :: "distributor list"
  fullName :: string
  phone :: string
  username :: string
  password :: string
  confirmPassword :: string
  selectedModule :: string
  showPassword :: bool
  showConfirm :: bool
  errors :: "(string \<times> string) list"
  savedMessage :: string
  timeouts :: nat

subsection \<open>Loading and persisting\<close>

text \<open>The JavaScript array of a list of records.\<close>

definition distributors_json :: "distributor list \<Rightarrow> json" where
  "distributors_json ds = JArr (map distributor_json ds)"

text \<open>
  The initializer of the \<open>distributors\<close> state. \<open>load_try\<close> is the body of the
  \<^verbatim>\<open>try\<close> block, \<open>load\<close> adds the \<^verbatim>\<open>catch\<close> clause, so that \<open>Inl\<close> is what
  the initializer would throw to React. \<^verbatim>\<open>JSON.parse\<close> is the browser's and is a
  parameter.
\<close>

definition load_try :: "(string \<Rightarrow> js_error + json) \<Rightarrow> localStorage \<Rightarrow> js_error + json" where
  "load_try JSON_parse ls =
     (case getItem ls STORAGE_KEY of
        Inl err \<Rightarrow> Inl err
      | Inr None \<Rightarrow> Inr (distributors_json SAMPLE)
      | Inr (Some raw) \<Rightarrow>
          if raw = [] then Inr (distributors_json SAMPLE)
          else
            (case JSON_parse raw of
               Inl err \<Rightarrow> Inl err
             | Inr parsed \<Rightarrow>
                 Inr (if isArray parsed then parsed else distributors_json SAMPLE)))"

definition load :: "(string \<Rightarrow> js_error + json) \<Rightarrow> localStorage \<Rightarrow> js_error + json" where
  "load JSON_parse ls =
     (case load_try JSON_parse ls of
        Inl err \<Rightarrow> Inr (distributors_json SAMPLE)
      | Inr v \<Rightarrow> Inr v)"

text \<open>
  The effect that runs after a render in which \<open>distributors\<close> has changed. A failed
  write is swallowed and leaves the storage as it was. \<^verbatim>\<open>JSON.stringify\<close> is the
  browser's and is a parameter.
\<close>

definition persist :: "(json \<Rightarrow> string) \<Rightarrow> localStorage \<Rightarrow> component \<Rightarrow> localStorage" where
  "persist JSON_stringify ls c =
     (case setItem ls STORAGE_KEY (JSON_stringify (distributors_json (distributors c))) of
        Inl err \<Rightarrow> ls
      | Inr ls' \<Rightarrow> ls')"

text \<open>
  The component right after its state initializers have run, when the initializer of
  \<open>distributors\<close> has returned the array of the records \<open>ds\<close>.
\<close>

definition mount :: "distributor list \<Rightarrow> component" where
  "mount ds =
     \<lparr>distributors = ds, fullName = [], phone = [], username = [], password = [],
      confirmPassword = [], selectedModule = [], showPassword = False, showConfirm = False,
      errors = [], savedMessage = [], timeouts = 0\<rparr>"

subsection \<open>The form\<close>

definition resetForm :: "component \<Rightarrow> component" where
  "resetForm c =
     c\<lparr>fullName := [], phone := [], username := [], password := [], confirmPassword := [],
       selectedModule := [], errors := [], showPassword := False, showConfirm := False,
       savedMessage := []\<rparr>"

text \<open>
  \<^verbatim>\<open>validate\<close> assigns the properties of a fresh object one after the other;
  \<^verbatim>\<open>!s\<close> holds of a string exactly when it is empty.
\<close>

definition validate :: "component \<Rightarrow> (string \<times> string) list" where
  "validate c =
     (let e0 = [];
          e1 = (if trim (fullName c) = []
                then AList.update ''fullName'' ''Full name is required.'' e0 else e0);
          e2 = (if trim (phone c) = []
                then AList.update ''phone'' ''Phone number is required.'' e1 else e1);
          e3 = (if trim (username c) = []
                then AList.update ''username'' ''Username is required.'' e2 else e2);
          e4 = (if password c = []
                then AList.update ''password'' ''Password is required.'' e3 else e3);
          e5 = (if confirmPassword c = []
                then AList.update ''confirmPassword'' ''Confirm the password.'' e4 else e4);
          e6 = (if password c \<noteq> [] \<and> confirmPassword c \<noteq> [] \<and> password c \<noteq> confirmPassword c
                then AList.update ''confirmPassword'' ''Passwords do not match.'' e5 else e5);
          e7 = (if selectedModule c = []
                then AList.update ''selectedModule'' ''Select exactly one access module.'' e6 else e6)
      in e7)"


text \<open>
  \<^verbatim>\<open>handleSave\<close>. \<^verbatim>\<open>Object.keys(e).length\<close> is the number of properties of the
  error object. \<^verbatim>\<open>Math.max\<close> is applied to the ids only when the list is not empty,
  and the \<^verbatim>\<open>+ 1\<close> is an addition of doubles.
  The updater \<^verbatim>\<open>(prev) => [newDist, ...prev]\<close> runs on the list the handler has read,
  since React renders between two events. The call of \<^verbatim>\<open>setTimeout\<close> adds a pending
  callback.
\<close>

definition handleSave :: "component \<Rightarrow> component" where
  "handleSave c =
     (let e = validate c;
          c1 = c\<lparr>errors := e\<rparr>
      in if length (map fst e) \<noteq> 0 then c1
         else
           let nextId = (if length (distributors c) \<noteq> 0
                         then js_add (Max (set (map d_id (distributors c)))) 1 else 1);
               newDist = \<lparr>d_id = nextId, d_fullName = trim (fullName c), d_phone = trim (phone c),
                          d_username = trim (username c), d_module = selectedModule c\<rparr>
           in c1\<lparr>distributors := newDist # distributors c1,
                 savedMessage := ''Distributor saved successfully.'',
                 timeouts := Suc (timeouts c1)\<rparr>)"

text \<open>\<^verbatim>\<open>handleDelete\<close>; \<open>confirmed\<close> is the answer of \<^verbatim>\<open>window.confirm\<close>.\<close>

definition handleDelete :: "bool \<Rightarrow> int \<Rightarrow> component \<Rightarrow> component" where
  "handleDelete confirmed i c =
     (if \<not> confirmed then c
      else c\<lparr>distributors := filter (\<lambda>d. d_id d \<noteq> i) (distributors c)\<rparr>)"

section \<open>The states of the page\<close>

text \<open>The keys of the access modules, the fixed set of the data model.\<close>

definition module_keys :: "string list" where
  "module_keys = map key ACCESS_MODULES"

text \<open>
  The invariant of the record store: the ids are unique, and every module is a
  non-empty key of \<^verbatim>\<open>ACCESS_MODULES\<close>.
\<close>

definition store_invariant :: "distributor list \<Rightarrow> bool" where
  "store_invariant ds \<longleftrightarrow>
     distinct (map d_id ds) \<and>
     list_all (\<lambda>d. d_module d \<noteq> [] \<and> d_module d \<in> set module_keys) ds"

text \<open>
  The part of the invariant that the additions keep whatever the ids are: no two records
  share an id below \<open>2^53\<close> in absolute value, and every module is a non-empty key of
  \<^verbatim>\<open>ACCESS_MODULES\<close>.
\<close>

definition bounded_invariant :: "distributor list \<Rightarrow> bool" where
  "bounded_invariant ds \<longleftrightarrow>
     distinct (map d_id (filter (\<lambda>d. \<bar>d_id d\<bar> < 2 ^ 53) ds)) \<and>
     list_all (\<lambda>d. d_module d \<noteq> [] \<and> d_module d \<in> set module_keys) ds"

text \<open>
  The states the page reaches from a mount whose initializer returned \<open>ds0\<close>, by the
  events of its JSX: typing into an input, the two show/hide buttons, a click on the
  tile of an access module, Cancel, the submission of the form, a pending timeout, and
  the Delete button of a listed record with either answer to the confirmation.
\<close>

inductive reachable :: "distributor list \<Rightarrow> component \<Rightarrow> bool"
  for ds0 :: "distributor list" where
  mounted: "reachable ds0 (mount ds0)"
| setFullName: "reachable ds0 c \<Longrightarrow> reachable ds0 (c\<lparr>fullName := v\<rparr>)"
| setPhone: "reachable ds0 c \<Longrightarrow> reachable ds0 (c\<lparr>phone := v\<rparr>)"
| setUsername: "reachable ds0 c \<Longrightarrow> reachable ds0 (c\<lparr>username := v\<rparr>)"
| setPassword: "reachable ds0 c \<Longrightarrow> reachable ds0 (c\<lparr>password := v\<rparr>)"
| setConfirmPassword: "reachable ds0 c \<Longrightarrow> reachable ds0 (c\<lparr>confirmPassword := v\<rparr>)"
| setShowPassword: "reachable ds0 c \<Longrightarrow> reachable ds0 (c\<lparr>showPassword := \<not> showPassword c\<rparr>)"
| setShowConfirm: "reachable ds0 c \<Longrightarrow> reachable ds0 (c\<lparr>showConfirm := \<not> showConfirm c\<rparr>)"
| setSelectedModule:
    "reachable ds0 c \<Longrightarrow> m \<in> set ACCESS_MODULES \<Longrightarrow> reachable ds0 (c\<lparr>selectedModule := key m\<rparr>)"
| cancel: "reachable ds0 c \<Longrightarrow> reachable ds0 (resetForm c)"
| submit: "reachable ds0 c \<Longrightarrow> reachable ds0 (handleSave c)"
| timeout:
    "reachable ds0 c \<Longrightarrow> 0 < timeouts c \<Longrightarrow>
     reachable ds0 (resetForm (c\<lparr>timeouts := timeouts c - 1\<rparr>))"
| delete:
    "reachable ds0 c \<Longrightarrow> d \<in> set (distributors c) \<Longrightarrow>
     reachable ds0 (handleDelete confirmed (d_id d) c)"

section \<open>Properties\<close>

lemma trim_Nil: "trim [] = []"
  by (simp add: trim_def)

lemma validate_Nil_iff:
  "validate c = [] \<longleftrightarrow>
     trim (fullName c) \<noteq> [] \<and> trim (phone c) \<noteq> [] \<and> trim (username c) \<noteq> [] \<and>
     password c \<noteq> [] \<and> confirmPassword c = password c \<and> selectedModule c \<noteq> []"
  by (auto simp: validate_def Let_def)

subsection \<open>Numbers\<close>

lemma spacing_small: "a < 2 ^ 53 \<Longrightarrow> spacing a = 1"
  by (simp add: spacing.simps)

lemma spacing_pos: "0 < spacing a"
  by (induction a rule: spacing.induct) (subst spacing.simps, simp)

lemma spacing_le: "2 ^ 52 \<le> a \<Longrightarrow> 2 ^ 52 * spacing a \<le> a"
proof (induction a rule: spacing.induct)
  case (1 a)
  show ?case
  proof (cases "a < 2 ^ 53")
    case True
    with "1.prems" show ?thesis by (simp add: spacing_small)
  next
    case False
    then have "2 ^ 52 \<le> a div 2" by simp
    with "1.IH" False have "2 ^ 52 * spacing (a div 2) \<le> a div 2" by simp
    then have "2 ^ 52 * (2 * spacing (a div 2)) \<le> 2 * (a div 2)" by simp
    also have "\<dots> \<le> a" by simp
    finally show ?thesis using False by (subst spacing.simps) simp
  qed
qed

lemma spacing_2_53: "spacing (2 ^ 53) = 2"
  by (subst spacing.simps) (simp add: spacing_small)

text \<open>Up to \<open>2^53\<close> every integer is a double.\<close>

lemma round_double_exact:
  assumes "\<bar>x\<bar> \<le> 2 ^ 53"
  shows "round_double x = x"
proof (cases "\<bar>x\<bar> < 2 ^ 53")
  case True
  then have "spacing \<bar>x\<bar> = 1" by (rule spacing_small)
  then show ?thesis by (simp add: round_double_def Let_def mult_sgn_abs)
next
  case False
  with assms have a: "\<bar>x\<bar> = 2 ^ 53" by simp
  have "sgn x * \<bar>x\<bar> = x" by (rule mult_sgn_abs)
  moreover have "spacing 9007199254740992 = 2" using spacing_2_53 by simp
  ultimately show ?thesis by (simp add: round_double_def Let_def a)
qed

text \<open>Rounding does not take a number of at least \<open>2^53\<close> below \<open>2^53\<close>.\<close>

lemma round_double_big:
  assumes "2 ^ 53 \<le> \<bar>x\<bar>"
  shows "2 ^ 53 \<le> \<bar>round_double x\<bar>"
proof -
  define a where "a = \<bar>x\<bar>"
  define u where "u = spacing a"
  define q where "q = a div u"
  define q' where
    "q' = (if 2 * (a mod u) < u \<or> (2 * (a mod u) = u \<and> even q) then q else q + 1)"
  have a: "2 ^ 53 \<le> a" using assms by (simp add: a_def)
  then have "2 ^ 52 * u \<le> a" unfolding u_def by (intro spacing_le) simp
  moreover  have upos: "0 < u" by (simp add: u_def spacing_pos)
  ultimately have "(2 ^ 52 * u) div u \<le> a div u" by (intro zdiv_mono1)
  then have "2 ^ 52 \<le> q" using upos by (simp add: q_def)
  moreover have "q \<le> q'" by (simp add: q'_def)
  ultimately have q': "2 ^ 52 \<le> q'" by simp
  have "u = 2 * spacing (a div 2)" using a unfolding u_def by (subst spacing.simps) simp
  then have "2 \<le> u" using spacing_pos [of "a div 2"] by simp
  with q' have "2 ^ 52 * 2 \<le> q' * u" by (intro mult_mono) simp_all
  then have big: "2 ^ 53 \<le> q' * u" by simp
  have "x \<noteq> 0" using assms by auto
  then have "\<bar>round_double x\<bar> = \<bar>q' * u\<bar>"
    by (simp add: round_double_def Let_def a_def u_def q_def q'_def abs_mult)
  with big show ?thesis by simp
qed

lemma js_add_exact: "\<bar>x + y\<bar> \<le> 2 ^ 53 \<Longrightarrow> js_add x y = x + y"
  by (simp add: js_add_def round_double_exact)

lemma js_add_below: "\<bar>js_add x y\<bar> < 2 ^ 53 \<Longrightarrow> js_add x y = x + y"
  using round_double_big [of "x + y"] by (cases "\<bar>x + y\<bar> \<le> 2 ^ 53") (auto simp: js_add_def round_double_exact)

text \<open>In doubles, \<open>2^53 + 1\<close> is \<open>2^53\<close>.\<close>

lemma js_add_2_53: "js_add 9007199254740992 1 = 9007199254740992"
proof -
  have "spacing 9007199254740993 = 2"
    by (subst spacing.simps) (simp add: spacing_small)
  then show ?thesis by (simp add: js_add_def round_double_def Let_def)
qed

subsection \<open>Submissions\<close>

lemma Max_id_ge:
  assumes "d \<in> set ds"
  shows "d_id d \<le> Max (set (map d_id ds))"
proof -
  have "d_id d \<in> set (map d_id ds)" using assms by simp
  then show ?thesis by (intro Max_ge) simp_all
qed

lemma Max_id_abs:
  assumes "ds \<noteq> []" and "\<forall>d \<in> set ds. \<bar>d_id d\<bar> < 2 ^ 53"
  shows "\<bar>Max (set (map d_id ds))\<bar> < 2 ^ 53"
proof -
  have "Max (set (map d_id ds)) \<in> set (map d_id ds)"
    using assms(1) by (intro Max_in) simp_all
  then show ?thesis using assms(2) by auto
qed

text \<open>Below \<open>2^53\<close> the next id is the greatest id plus one, above every id.\<close>

lemma nextId_exact:
  assumes "ds \<noteq> []" and "\<forall>d \<in> set ds. \<bar>d_id d\<bar> < 2 ^ 53"
  shows "js_add (Max (set (map d_id ds))) 1 = Max (set (map d_id ds)) + 1"
  using Max_id_abs [OF assms] by (intro js_add_exact) simp

text \<open>The two outcomes of a submission.\<close>

lemma handleSave_valid:
  assumes "validate c = []"
  shows "handleSave c =
           c\<lparr>errors := [],
             distributors :=
               \<lparr>d_id = (if distributors c = [] then 1
                         else js_add (Max (set (map d_id (distributors c)))) 1),
                d_fullName = trim (fullName c), d_phone = trim (phone c),
                d_username = trim (username c), d_module = selectedModule c\<rparr> # distributors c,
             savedMessage := ''Distributor saved successfully.'',
             timeouts := Suc (timeouts c)\<rparr>"
  using assms by (simp add: handleSave_def Let_def)

lemma handleSave_invalid:
  assumes "validate c \<noteq> []"
  shows "handleSave c = c\<lparr>errors := validate c\<rparr>"
  using assms by (simp add: handleSave_def Let_def)

subsection \<open>Submitting a valid form\<close>

text \<open>
  C1, as stated, has the new id strictly greater than every existing id for every list.
  The \<^verbatim>\<open>+ 1\<close> is an addition of doubles: on a list whose one record has the id
  \<open>2^53 = 9007199254740992\<close>, a valid submission adds a record with the same id.
\<close>

theorem handleSave_id_counterexample:
  "distributors (handleSave ((mount
       [\<lparr>d_id = 9007199254740992, d_fullName = ''A'', d_phone = ''1'', d_username = ''a'',
         d_module = ''reports''\<rparr>])\<lparr>fullName := ''A B'', phone := ''123'', username := ''ab'',
        password := ''x'', confirmPassword := ''x'', selectedModule := ''reports''\<rparr>))
   = [\<lparr>d_id = 9007199254740992, d_fullName = ''A B'', d_phone = ''123'', d_username = ''ab'',
       d_module = ''reports''\<rparr>,
      \<lparr>d_id = 9007199254740992, d_fullName = ''A'', d_phone = ''1'', d_username = ''a'',
       d_module = ''reports''\<rparr>]"
  by (simp add: handleSave_valid validate_Nil_iff mount_def trim_def is_white_space_def
        js_add_2_53)

text \<open>
  C1, amended. When the trimmed full name, phone and username are not empty, the password
  is not empty and equals its confirmation, and a module is selected, \<^verbatim>\<open>handleSave\<close>
  puts exactly one new record in front of the list, with the selected module. When every
  existing id is below \<open>2^53\<close> in absolute value, the id of the new record is 1 for an
  empty list and the greatest existing id plus one otherwise, and it is greater than every
  existing id.
\<close>

theorem handleSave_adds_one_record:
  assumes "trim (fullName c) \<noteq> []" and "trim (phone c) \<noteq> []" and "trim (username c) \<noteq> []"
    and "password c \<noteq> []" and "confirmPassword c = password c" and "selectedModule c \<noteq> []"
  shows "\<exists>newDist.
           distributors (handleSave c) = newDist # distributors c \<and>
           d_module newDist = selectedModule c \<and>
           ((\<forall>d \<in> set (distributors c). \<bar>d_id d\<bar> < 2 ^ 53) \<longrightarrow>
              d_id newDist =
                (if distributors c = [] then 1
                 else Max (set (map d_id (distributors c))) + 1) \<and>
              (\<forall>d \<in> set (distributors c). d_id d < d_id newDist))"
proof -
  let ?M = "Max (set (map d_id (distributors c)))"
  let ?new = "\<lparr>d_id = (if distributors c = [] then 1 else js_add ?M 1),
      d_fullName = trim (fullName c), d_phone = trim (phone c),
      d_username = trim (username c), d_module = selectedModule c\<rparr>"
  have "validate c = []" using assms by (simp add: validate_Nil_iff)
  then have added: "distributors (handleSave c) = ?new # distributors c"
    by (simp add: handleSave_valid)
  have ids: "d_id ?new = (if distributors c = [] then 1 else ?M + 1) \<and>
      (\<forall>d \<in> set (distributors c). d_id d < d_id ?new)"
    if small: "\<forall>d \<in> set (distributors c). \<bar>d_id d\<bar> < 2 ^ 53"
  proof (cases "distributors c = []")
    case True
    then show ?thesis by simp
  next
    case False
    have exact: "js_add ?M 1 = ?M + 1" using False small by (rule nextId_exact)
    have "d_id d < ?M + 1" if "d \<in> set (distributors c)" for d
      using Max_id_ge [OF that] by simp
    then show ?thesis using False exact by simp
  qed
  have "distributors (handleSave c) = ?new # distributors c \<and>
      d_module ?new = selectedModule c \<and>
      ((\<forall>d \<in> set (distributors c). \<bar>d_id d\<bar> < 2 ^ 53) \<longrightarrow>
         d_id ?new = (if distributors c = [] then 1 else ?M + 1) \<and>
         (\<forall>d \<in> set (distributors c). d_id d < d_id ?new))"
    using added ids by (intro conjI impI) simp_all
  then show ?thesis by (rule exI)
qed

theorem handleSave_adds_one_record_witness:
  "\<exists>newDist.
     distributors (handleSave ((mount SAMPLE)\<lparr>fullName := '' A B'', phone := ''123'',
        username := ''ab'', password := ''x'', confirmPassword := ''x'',
        selectedModule := ''reports''\<rparr>)) = newDist # SAMPLE \<and>
     d_id newDist = 2 \<and> d_module newDist = ''reports''"
  using handleSave_adds_one_record [of "(mount SAMPLE)\<lparr>fullName := '' A B'', phone := ''123'',
        username := ''ab'', password := ''x'', confirmPassword := ''x'',
        selectedModule := ''reports''\<rparr>"]
  by (auto simp: mount_def SAMPLE_def trim_def is_white_space_def)

subsection \<open>Deleting a record\<close>

text \<open>
  C2, as stated, has \<^verbatim>\<open>handleDelete\<close> remove exactly one record for every list and
  every id. On a list of two records with the id 1, the deletion of the id 1 removes both;
  the deletion of the id 7, which no record has, removes none.
\<close>

theorem handleDelete_counterexample:
  "distributors (handleDelete True 1 (mount
      [\<lparr>d_id = 1, d_fullName = ''A'', d_phone = ''1'', d_username = ''a'', d_module = ''reports''\<rparr>,
       \<lparr>d_id = 1, d_fullName = ''B'', d_phone = ''2'', d_username = ''b'', d_module = ''reports''\<rparr>]))
     = [] \<and>
   distributors (handleDelete True 7 (mount
      [\<lparr>d_id = 1, d_fullName = ''A'', d_phone = ''1'', d_username = ''a'', d_module = ''reports''\<rparr>,
       \<lparr>d_id = 1, d_fullName = ''B'', d_phone = ''2'', d_username = ''b'', d_module = ''reports''\<rparr>]))
     = [\<lparr>d_id = 1, d_fullName = ''A'', d_phone = ''1'', d_username = ''a'', d_module = ''reports''\<rparr>,
        \<lparr>d_id = 1, d_fullName = ''B'', d_phone = ''2'', d_username = ''b'', d_module = ''reports''\<rparr>]"
  by (simp add: handleDelete_def mount_def)

text \<open>
  C2, amended. For every list and every id, when the user confirms, \<^verbatim>\<open>handleDelete\<close>
  removes exactly the records whose id matches: the list afterwards is the list before
  without them, so every other record is unchanged and keeps its place relative to the
  others, and the number of records removed is the number of records with that id. It is
  the one record \<open>d\<close> when \<open>d\<close> is the only record with its id, and none when no record
  has the id. Without the confirmation nothing changes.
\<close>

theorem handleDelete_removes_matching_records:
  "distributors (handleDelete True i c) = filter (\<lambda>e. d_id e \<noteq> i) (distributors c) \<and>
   length (distributors c) =
     length (distributors (handleDelete True i c)) +
     length (filter (\<lambda>e. d_id e = i) (distributors c)) \<and>
   (\<forall>xs d ys. distributors c = xs @ d # ys \<and> d_id d = i \<and> (\<forall>e \<in> set (xs @ ys). d_id e \<noteq> i)
      \<longrightarrow> distributors (handleDelete True i c) = xs @ ys) \<and>
   ((\<forall>e \<in> set (distributors c). d_id e \<noteq> i) \<longrightarrow> handleDelete True i c = c) \<and>
   handleDelete False i c = c"
proof (intro conjI allI impI)
  show "distributors (handleDelete True i c) = filter (\<lambda>e. d_id e \<noteq> i) (distributors c)"
    by (simp add: handleDelete_def)
  show "length (distributors c) =
     length (distributors (handleDelete True i c)) +
     length (filter (\<lambda>e. d_id e = i) (distributors c))"
    using sum_length_filter_compl [of "\<lambda>e. d_id e = i" "distributors c"]
    by (simp add: handleDelete_def)
  show "distributors (handleDelete True i c) = xs @ ys"
    if "distributors c = xs @ d # ys \<and> d_id d = i \<and> (\<forall>e \<in> set (xs @ ys). d_id e \<noteq> i)"
    for xs d ys
    using that by (simp add: handleDelete_def filter_id_conv ball_Un)
  show "handleDelete True i c = c" if "\<forall>e \<in> set (distributors c). d_id e \<noteq> i"
    using that by (simp add: handleDelete_def filter_id_conv)
  show "handleDelete False i c = c"
    by (simp add: handleDelete_def)
qed

theorem handleDelete_removes_matching_records_witness:
  "distributors (handleDelete True 2
     ((mount SAMPLE)\<lparr>distributors :=
        [\<lparr>d_id = 3, d_fullName = ''C'', d_phone = ''3'', d_username = ''c'', d_module = ''outlets''\<rparr>,
         \<lparr>d_id = 2, d_fullName = ''B'', d_phone = ''2'', d_username = ''b'', d_module = ''reports''\<rparr>,
         \<lparr>d_id = 1, d_fullName = ''A'', d_phone = ''1'', d_username = ''a'', d_module = ''reports''\<rparr>]\<rparr>))
   = [\<lparr>d_id = 3, d_fullName = ''C'', d_phone = ''3'', d_username = ''c'', d_module = ''outlets''\<rparr>,
      \<lparr>d_id = 1, d_fullName = ''A'', d_phone = ''1'', d_username = ''a'', d_module = ''reports''\<rparr>]"
  using handleDelete_removes_matching_records [of 2
     "(mount SAMPLE)\<lparr>distributors :=
        [\<lparr>d_id = 3, d_fullName = ''C'', d_phone = ''3'', d_username = ''c'', d_module = ''outlets''\<rparr>,
         \<lparr>d_id = 2, d_fullName = ''B'', d_phone = ''2'', d_username = ''b'', d_module = ''reports''\<rparr>,
         \<lparr>d_id = 1, d_fullName = ''A'', d_phone = ''1'', d_username = ''a'', d_module = ''reports''\<rparr>]\<rparr>"]
  by simp

subsection \<open>Submitting an invalid form\<close>

text \<open>
  C4. When the full name, the phone, the username, the password or the confirmation is
  empty, or no module is selected, \<^verbatim>\<open>validate\<close> returns at least one error and
  \<^verbatim>\<open>handleSave\<close> only stores the errors: no record is added and the list of
  distributors is unchanged.
\<close>

theorem validate_rejects_empty_field:
  assumes "fullName c = [] \<or> phone c = [] \<or> username c = [] \<or> password c = [] \<or>
           confirmPassword c = [] \<or> selectedModule c = []"
  shows "validate c \<noteq> [] \<and> handleSave c = c\<lparr>errors := validate c\<rparr> \<and>
         distributors (handleSave c) = distributors c"
proof -
  have "validate c \<noteq> []" using assms by (auto simp: validate_Nil_iff trim_Nil)
  then show ?thesis by (simp add: handleSave_invalid)
qed

theorem validate_rejects_empty_field_witness:
  "validate ((mount SAMPLE)\<lparr>fullName := ''A B'', phone := ''123'', username := ''ab'',
        password := ''x'', confirmPassword := ''x''\<rparr>) \<noteq> [] \<and>
   distributors (handleSave ((mount SAMPLE)\<lparr>fullName := ''A B'', phone := ''123'',
        username := ''ab'', password := ''x'', confirmPassword := ''x''\<rparr>)) = SAMPLE"
  using validate_rejects_empty_field [of "(mount SAMPLE)\<lparr>fullName := ''A B'', phone := ''123'',
        username := ''ab'', password := ''x'', confirmPassword := ''x''\<rparr>"]
  by (simp add: mount_def)

text \<open>
  What \<^verbatim>\<open>errors.password\<close> and \<^verbatim>\<open>errors.confirmPassword\<close> are after
  \<^verbatim>\<open>validate\<close>.
\<close>

lemma map_of_cond_update:
  "map_of (if b then AList.update k v e else e) k' =
     (if b \<and> k' = k then Some v else map_of e k')"
  by (simp add: update_conv')

lemma map_of_validate_confirmPassword:
  "map_of (validate c) ''confirmPassword'' =
     (if confirmPassword c = [] then Some ''Confirm the password.''
      else if password c \<noteq> [] \<and> password c \<noteq> confirmPassword c
        then Some ''Passwords do not match.''
      else None)"
  by (simp add: validate_def Let_def map_of_cond_update)

lemma map_of_validate_password:
  "map_of (validate c) ''password'' =
     (if password c = [] then Some ''Password is required.'' else None)"
  by (simp add: validate_def Let_def map_of_cond_update)

text \<open>
  C5, as stated, asks for a \<open>confirmPassword\<close> error whenever the password and its
  confirmation differ. With an empty password and the confirmation \<^verbatim>\<open>"x"\<close> the only
  error is the one of \<open>password\<close>: the comparison of the two is guarded by both being
  non-empty.
\<close>

theorem password_mismatch_counterexample:
  "password ((mount SAMPLE)\<lparr>fullName := ''A B'', phone := ''123'', username := ''ab'',
      password := [], confirmPassword := ''x'', selectedModule := ''reports''\<rparr>)
   \<noteq> confirmPassword ((mount SAMPLE)\<lparr>fullName := ''A B'', phone := ''123'', username := ''ab'',
      password := [], confirmPassword := ''x'', selectedModule := ''reports''\<rparr>) \<and>
   errors (handleSave ((mount SAMPLE)\<lparr>fullName := ''A B'', phone := ''123'', username := ''ab'',
      password := [], confirmPassword := ''x'', selectedModule := ''reports''\<rparr>))
   = [(''password'', ''Password is required.'')] \<and>
   map_of (errors (handleSave ((mount SAMPLE)\<lparr>fullName := ''A B'', phone := ''123'',
      username := ''ab'', password := [], confirmPassword := ''x'',
      selectedModule := ''reports''\<rparr>))) ''confirmPassword'' = None"
  by (simp add: handleSave_def validate_def mount_def trim_def is_white_space_def Let_def)

text \<open>
  C5, amended. When the password and its confirmation differ, \<^verbatim>\<open>handleSave\<close> stores a
  non-empty error object and adds no record. If the password is not empty the object has
  a \<open>confirmPassword\<close> error (the confirmation is missing, or the two do not match); if
  the password is empty it has the \<open>password\<close> error and no \<open>confirmPassword\<close> error.
\<close>

theorem password_mismatch_rejected:
  assumes "password c \<noteq> confirmPassword c"
  shows "validate c \<noteq> [] \<and> handleSave c = c\<lparr>errors := validate c\<rparr> \<and>
         distributors (handleSave c) = distributors c \<and>
         (password c \<noteq> [] \<longrightarrow>
            map_of (errors (handleSave c)) ''confirmPassword'' =
              Some (if confirmPassword c = [] then ''Confirm the password.''
                    else ''Passwords do not match.'')) \<and>
         (password c = [] \<longrightarrow>
            map_of (errors (handleSave c)) ''password'' = Some ''Password is required.'' \<and>
            map_of (errors (handleSave c)) ''confirmPassword'' = None)"
proof -
  have v: "validate c \<noteq> []" using assms by (auto simp: validate_Nil_iff)
  then have h: "handleSave c = c\<lparr>errors := validate c\<rparr>" by (rule handleSave_invalid)
  show ?thesis using assms v
    by (auto simp: h map_of_validate_confirmPassword map_of_validate_password)
qed

theorem password_mismatch_rejected_witness:
  "map_of (errors (handleSave ((mount SAMPLE)\<lparr>fullName := ''A B'', phone := ''123'',
      username := ''ab'', password := ''x'', confirmPassword := ''y'',
      selectedModule := ''reports''\<rparr>))) ''confirmPassword''
     = Some ''Passwords do not match.'' \<and>
   distributors (handleSave ((mount SAMPLE)\<lparr>fullName := ''A B'', phone := ''123'',
      username := ''ab'', password := ''x'', confirmPassword := ''y'',
      selectedModule := ''reports''\<rparr>)) = SAMPLE"
  using password_mismatch_rejected [of "(mount SAMPLE)\<lparr>fullName := ''A B'', phone := ''123'',
      username := ''ab'', password := ''x'', confirmPassword := ''y'', selectedModule := ''reports''\<rparr>"]
  by (simp add: mount_def handleSave_def validate_def Let_def trim_def is_white_space_def)

subsection \<open>Passwords are not trimmed\<close>

lemma trim_white_space:
  assumes "\<forall>ch \<in> set s. is_white_space ch"
  shows "trim s = []"
proof -
  have "dropWhile is_white_space s = []" using assms by simp
  then show ?thesis unfolding trim_def by (simp only: rev.simps dropWhile.simps)
qed

text \<open>
  C9. \<^verbatim>\<open>validate\<close> tests the password and its confirmation as they are typed, while
  the full name, the phone and the username are trimmed first. A password made of white
  space only (at least one character, so that it is not the empty password), repeated as
  the confirmation, with the other fields valid, passes: there is no error and
  \<^verbatim>\<open>handleSave\<close> adds a record, although the trimmed password is empty.
\<close>

theorem whitespace_password_accepted:
  assumes "password c \<noteq> []" and "\<forall>ch \<in> set (password c). is_white_space ch"
    and "confirmPassword c = password c"
    and "trim (fullName c) \<noteq> []" and "trim (phone c) \<noteq> []" and "trim (username c) \<noteq> []"
    and "selectedModule c \<noteq> []"
  shows "trim (password c) = [] \<and> validate c = [] \<and>
         (\<exists>newDist. distributors (handleSave c) = newDist # distributors c)"
proof -
  have "validate c = []" using assms by (simp add: validate_Nil_iff)
  then show ?thesis using assms(2) by (simp add: handleSave_valid trim_white_space)
qed

theorem whitespace_password_accepted_witness:
  "validate ((mount SAMPLE)\<lparr>fullName := ''A B'', phone := ''123'', username := ''ab'',
      password := ''   '', confirmPassword := ''   '', selectedModule := ''reports''\<rparr>) = [] \<and>
   length (distributors (handleSave ((mount SAMPLE)\<lparr>fullName := ''A B'', phone := ''123'',
      username := ''ab'', password := ''   '', confirmPassword := ''   '',
      selectedModule := ''reports''\<rparr>))) = 2"
  using whitespace_password_accepted [of "(mount SAMPLE)\<lparr>fullName := ''A B'', phone := ''123'',
      username := ''ab'', password := ''   '', confirmPassword := ''   '',
      selectedModule := ''reports''\<rparr>"]
  by (auto simp: mount_def SAMPLE_def trim_def is_white_space_def)

subsection \<open>The initial load\<close>

text \<open>The initializer by cases on what the storage holds and on what the parser returns.\<close>

lemma load_cases:
  "load JSON_parse ls =
     (case getItem ls STORAGE_KEY of
        Inl err \<Rightarrow> Inr (distributors_json SAMPLE)
      | Inr None \<Rightarrow> Inr (distributors_json SAMPLE)
      | Inr (Some raw) \<Rightarrow>
          (case JSON_parse raw of
             Inl err \<Rightarrow> Inr (distributors_json SAMPLE)
           | Inr parsed \<Rightarrow>
               Inr (if raw \<noteq> [] \<and> isArray parsed then parsed else distributors_json SAMPLE)))"
  by (simp add: load_def load_try_def split: sum.splits option.splits)

text \<open>
  C8. Whatever the storage holds and whatever the parser does, the initial load returns a
  value and throws nothing. When reading the storage fails, when the key is absent, or
  when the stored text does not parse, the value is the seed list.
\<close>

theorem load_never_throws:
  "(\<exists>v. load JSON_parse ls = Inr v) \<and>
   ((\<exists>err. getItem ls STORAGE_KEY = Inl err) \<or> getItem ls STORAGE_KEY = Inr None \<or>
    (\<exists>raw err. getItem ls STORAGE_KEY = Inr (Some raw) \<and> JSON_parse raw = Inl err)
    \<longrightarrow> load JSON_parse ls = Inr (distributors_json SAMPLE))"
  by (auto simp: load_cases split: sum.splits option.splits)

theorem load_never_throws_witness:
  "load (\<lambda>raw. Inl SyntaxError)
      \<lparr>items = [STORAGE_KEY \<mapsto> ''[{oops''], blocked = False, full = False\<rparr>
     = Inr (distributors_json SAMPLE) \<and>
   load (\<lambda>raw. Inl SyntaxError) \<lparr>items = Map.empty, blocked = False, full = False\<rparr>
     = Inr (distributors_json SAMPLE)"
  using load_never_throws [of "\<lambda>raw. Inl SyntaxError"
        "\<lparr>items = [STORAGE_KEY \<mapsto> ''[{oops''], blocked = False, full = False\<rparr>"]
    load_never_throws [of "\<lambda>raw. Inl SyntaxError"
        "\<lparr>items = Map.empty, blocked = False, full = False\<rparr>"]
  by (simp add: getItem_def)

text \<open>
  C10. When the stored text parses, but to a value that is not an array, the initial load
  returns the seed list as well.
\<close>

theorem load_non_array_falls_back:
  assumes "getItem ls STORAGE_KEY = Inr (Some raw)" and "JSON_parse raw = Inr parsed"
    and "\<not> isArray parsed"
  shows "load JSON_parse ls = Inr (distributors_json SAMPLE)"
  using assms by (simp add: load_cases)

theorem load_non_array_falls_back_witness:
  \<open>load (\<lambda>raw. Inr (JObj [(''id'', JNum 1)]))
      \<lparr>items = [STORAGE_KEY \<mapsto> ''{"id":1}''], blocked = False, full = False\<rparr>
     = Inr (distributors_json SAMPLE)\<close>
  using load_non_array_falls_back [of
        \<open>\<lparr>items = [STORAGE_KEY \<mapsto> ''{"id":1}''], blocked = False, full = False\<rparr>\<close>
        \<open>''{"id":1}''\<close> \<open>\<lambda>raw. Inr (JObj [(''id'', JNum 1)])\<close> \<open>JObj [(''id'', JNum 1)]\<close>]
  by (simp add: getItem_def)

subsection \<open>Printing and parsing JSON texts\<close>

text \<open>Numbers: the digits of an integer are read back as the integer.\<close>

lemma is_digit_digit_char: "0 \<le> n \<Longrightarrow> n < 10 \<Longrightarrow> is_digit (digit_char n)"
  by (simp add: is_digit_def digit_char_def nat_add_distrib)

lemma digit_value_digit_char: "0 \<le> n \<Longrightarrow> n < 10 \<Longrightarrow> digit_value (digit_char n) = n"
  by (simp add: digit_value_def digit_char_def nat_add_distrib)

lemma digit_char_0: "digit_char 0 = CHR ''0''"
  by code_simp

lemma digit_char_eq_zero: "0 \<le> n \<Longrightarrow> n < 10 \<Longrightarrow> digit_char n = CHR ''0'' \<longleftrightarrow> n = 0"
  using digit_value_digit_char [of n] by (auto simp: digit_value_def digit_char_0)

lemma show_digits_digits: "0 \<le> n \<Longrightarrow> list_all is_digit (show_digits n)"
proof (induction n rule: show_digits.induct)
  case (1 n)
  show ?case
  proof (cases "n < 10")
    case True
    with "1.prems" show ?thesis by (subst show_digits.simps) (simp add: is_digit_digit_char)
  next
    case False
    with "1" show ?thesis by (subst show_digits.simps) (simp add: is_digit_digit_char)
  qed
qed

lemma show_digits_not_Nil: "show_digits n \<noteq> []"
  by (subst show_digits.simps) simp

lemma show_digits_value:
  "0 \<le> n \<Longrightarrow> foldl (\<lambda>a ch. 10 * a + digit_value ch) 0 (show_digits n) = n"
proof (induction n rule: show_digits.induct)
  case (1 n)
  show ?case
  proof (cases "n < 10")
    case True
    with "1.prems" show ?thesis by (subst show_digits.simps) (simp add: digit_value_digit_char)
  next
    case False
    with "1" show ?thesis by (subst show_digits.simps) (simp add: digit_value_digit_char)
  qed
qed

lemma show_digits_hd:
  "0 < n \<Longrightarrow> hd (show_digits n) \<noteq> CHR ''0''"
proof (induction n rule: show_digits.induct)
  case (1 n)
  show ?case
  proof (cases "n < 10")
    case True
    with "1.prems" show ?thesis by (subst show_digits.simps) (simp add: digit_char_eq_zero)
  next
    case False
    then have "0 < n div 10" by simp
    with "1.IH" False have "hd (show_digits (n div 10)) \<noteq> CHR ''0''" by simp
    with False show ?thesis by (subst show_digits.simps) (simp add: show_digits_not_Nil)
  qed
qed

lemma show_digits_single: "n < 10 \<Longrightarrow> show_digits n = [digit_char n]"
  by (subst show_digits.simps) simp

lemma takeWhile_digits:
  "list_all is_digit ds \<Longrightarrow> delimited r \<Longrightarrow> takeWhile is_digit (ds @ r) = ds"
  by (induction ds) (auto simp: delimited_def split: list.splits)

lemma dropWhile_digits:
  "list_all is_digit ds \<Longrightarrow> delimited r \<Longrightarrow> dropWhile is_digit (ds @ r) = r"
  by (induction ds) (auto simp: delimited_def split: list.splits)

lemma parse_nat_show_digits:
  assumes "0 \<le> n" and "delimited r"
  shows "parse_nat (show_digits n @ r) = Some (n, r)"
proof -
  obtain d ds where ds: "show_digits n = d # ds"
    using show_digits_not_Nil [of n] by (cases "show_digits n") auto
  have tw: "takeWhile is_digit (show_digits n @ r) = show_digits n"
    and dw: "dropWhile is_digit (show_digits n @ r) = r"
    using assms by (simp_all add: takeWhile_digits dropWhile_digits show_digits_digits)
  have lead: "\<not> (d = CHR ''0'' \<and> ds \<noteq> [])"
  proof (cases "n < 10")
    case True
    then show ?thesis using ds by (simp add: show_digits_single)
  next
    case False
    then have "hd (show_digits n) \<noteq> CHR ''0''" by (intro show_digits_hd) simp
    then show ?thesis using ds by simp
  qed
  have "foldl (\<lambda>a ch. 10 * a + digit_value ch) 0 (d # ds) = n"
    using show_digits_value [OF assms(1)] ds by simp
  then show ?thesis using lead tw dw ds unfolding parse_nat_def by simp
qed

lemma parse_number_show_int:
  assumes "\<bar>i\<bar> \<le> 2 ^ 53" and "delimited r"
  shows "parse_number (show_int i @ r) = Some (JNum i, r)"
proof (cases "i < 0")
  case True
  then show ?thesis using assms
    by (simp add: parse_number_def show_int_def parse_nat_show_digits)
next
  case False
  obtain d ds where ds: "show_digits i = d # ds"
    using show_digits_not_Nil [of i] by (cases "show_digits i") auto
  have "is_digit d" using show_digits_digits [of i] False ds by simp
  then have "d \<noteq> CHR ''-''" by (auto simp: is_digit_def)
  moreover have "parse_nat (d # ds @ r) = Some (i, r)"
    using parse_nat_show_digits [of i r] False assms(2) ds by simp
  ultimately show ?thesis using False assms(1) ds
    by (simp add: parse_number_def show_int_def)
qed

text \<open>Strings: the escaped code units are read back as the code units.\<close>

lemma hex_value_hex_char: "n < 16 \<Longrightarrow> is_hex (hex_char n) \<and> hex_value (hex_char n) = n"
  by (auto simp: hex_char_def hex_value_def is_hex_def is_digit_def)

lemma parse_chars_escape:
  "parse_chars (escape ch @ s) = map_option (apfst ((#) ch)) (parse_chars s)"
proof -
  consider (special) "ch \<in> {CHR 0x22, CHR 0x5C, CHR 0x08, CHR 0x0C, CHR 0x0A, CHR 0x0D, CHR 0x09}"
    | (control) "ch \<notin> {CHR 0x22, CHR 0x5C, CHR 0x08, CHR 0x0C, CHR 0x0A, CHR 0x0D, CHR 0x09}"
        "(of_char ch :: nat) < 32"
    | (plain) "ch \<notin> {CHR 0x22, CHR 0x5C, CHR 0x08, CHR 0x0C, CHR 0x0A, CHR 0x0D, CHR 0x09}"
        "\<not> (of_char ch :: nat) < 32"
    by blast
  then show ?thesis
  proof cases
    case special
    then show ?thesis by (auto simp: escape_def unescape_def)
  next
    case control
    have d: "(of_char ch :: nat) div 16 < 16" "(of_char ch :: nat) mod 16 < 16"
      using control(2) by simp_all
    have "char_of (16 * ((of_char ch :: nat) div 16) + of_char ch mod 16) = ch"
      by simp
    then show ?thesis using control hex_value_hex_char [OF d(1)] hex_value_hex_char [OF d(2)]
      by (simp add: escape_def)
  next
    case plain
    then show ?thesis by (simp add: escape_def)
  qed
qed

lemma parse_chars_quote:
  "parse_chars (concat (map escape s) @ CHR 0x22 # r) = Some (s, r)"
  by (induction s) (simp_all add: parse_chars_escape)

text \<open>
  Values: \<open>parse_value\<close> reads the text of a modelled value back as the value, whatever
  follows it, given a bound of at least the length of the text.
\<close>

lemma delimited_simps [simp]:
  "delimited (CHR '','' # r)" "delimited (CHR '']'' # r)" "delimited (CHR ''}'' # r)" "delimited []"
  by (simp_all add: delimited_def is_digit_def)

lemma show_int_first:
  "\<exists>ch s. show_int i = ch # s \<and> (is_digit ch \<or> ch = CHR ''-'')"
proof (cases "i < 0")
  case True
  then show ?thesis by (simp add: show_int_def)
next
  case False
  obtain d ds where ds: "show_digits i = d # ds"
    using show_digits_not_Nil [of i] by (cases "show_digits i") auto
  then have "is_digit d" using show_digits_digits [of i] False by simp
  with ds False show ?thesis by (simp add: show_int_def)
qed

lemma parse_value_number:
  assumes "is_digit ch \<or> ch = CHR ''-''"
  shows "parse_value (Suc f) (ch # s) = parse_number (ch # s)"
proof -
  have "ch \<noteq> CHR ''[''" "ch \<noteq> CHR ''{''" "ch \<noteq> CHR 0x22"
    "ch \<noteq> CHR ''n''" "ch \<noteq> CHR ''t''" "ch \<noteq> CHR ''f''"
    using assms by (auto simp: is_digit_def)
  then show ?thesis by (simp add: take_Cons')
qed

lemma stringify_first:
  "\<exists>ch s. stringify v = ch # s \<and> ch \<noteq> CHR '']'' \<and> ch \<noteq> CHR ''}''"
proof (cases v)
  case (JNum i)
  then show ?thesis using show_int_first [of i] by (auto simp: is_digit_def)
qed (auto simp: quote_def)

lemma commas_first:
  assumes "xs \<noteq> []" and "\<forall>x \<in> set xs. \<exists>ch s. x = ch # s \<and> P ch"
  shows "\<exists>ch s. commas xs = ch # s \<and> P ch"
proof (cases xs)
  case Nil
  with assms show ?thesis by simp
next
  case (Cons x xs')
  then show ?thesis using assms(2) by (cases xs') auto
qed

lemma parse_elements_commas:
  assumes "\<And>x f r. x \<in> set xs \<Longrightarrow> length (stringify x) \<le> f \<Longrightarrow> delimited r \<Longrightarrow>
             parse_value f (stringify x @ r) = Some (x, r)"
    and "xs \<noteq> []" and "length (commas (map stringify xs)) < f"
  shows "parse_elements f (commas (map stringify xs) @ CHR '']'' # r) = Some (xs, r)"
  using assms
proof (induction xs arbitrary: f)
  case Nil
  then show ?case by simp
next
  case (Cons x xs)
  from Cons.prems(3) obtain f' where f: "f = Suc f'" by (cases f) auto
  show ?case
  proof (cases xs)
    case Nil
    with Cons.prems f show ?thesis by simp
  next
    case (Cons y ys)
    have len: "length (stringify x) \<le> f'" "length (commas (map stringify xs)) < f'"
      using Cons.prems(3) f Cons by simp_all
    have "parse_value f' (stringify x @ CHR '','' # commas (map stringify xs) @ CHR '']'' # r)
            = Some (x, CHR '','' # commas (map stringify xs) @ CHR '']'' # r)"
      using Cons.prems(1) [of x f'] len(1) by simp
    moreover have "parse_elements f' (commas (map stringify xs) @ CHR '']'' # r) = Some (xs, r)"
      using Cons.IH [of f'] Cons.prems(1) len(2) Cons by simp
    ultimately show ?thesis using f Cons by simp
  qed
qed

lemma member_text_pair: "member_text (k, v) = quote k @ CHR '':'' # stringify v"
  by (simp add: member_text_def)

lemma parse_members_commas:
  assumes "\<And>kv f r. kv \<in> set kvs \<Longrightarrow> length (stringify (snd kv)) \<le> f \<Longrightarrow> delimited r \<Longrightarrow>
             parse_value f (stringify (snd kv) @ r) = Some (snd kv, r)"
    and "kvs \<noteq> []" and "length (commas (map member_text kvs)) < f"
  shows "parse_members f (commas (map member_text kvs) @ CHR ''}'' # r) = Some (kvs, r)"
  using assms
proof (induction kvs arbitrary: f)
  case Nil
  then show ?case by simp
next
  case (Cons kv kvs)
  obtain k v where kv: "kv = (k, v)" by (cases kv)
  from Cons.prems(3) obtain f' where f: "f = Suc f'" by (cases f) auto
  show ?case
  proof (cases kvs)
    case Nil
    have "length (stringify v) \<le> f'"
      using Cons.prems(3) f Nil kv by (simp add: member_text_pair)
    then have "parse_value f' (stringify v @ CHR ''}'' # r) = Some (v, CHR ''}'' # r)"
      using Cons.prems(1) [of kv f'] kv by simp
    then show ?thesis using f Nil kv
      by (simp add: member_text_pair quote_def parse_chars_quote)
  next
    case (Cons kv' kvs')
    have len: "length (stringify v) \<le> f'" "length (commas (map member_text kvs)) < f'"
      using Cons.prems(3) f Cons kv by (simp_all add: member_text_pair)
    have "parse_value f' (stringify v @ CHR '','' # commas (map member_text kvs) @ CHR ''}'' # r)
            = Some (v, CHR '','' # commas (map member_text kvs) @ CHR ''}'' # r)"
      using Cons.prems(1) [of kv f'] len(1) kv by simp
    moreover have "parse_members f' (commas (map member_text kvs) @ CHR ''}'' # r) = Some (kvs, r)"
      using Cons.IH [of f'] Cons.prems(1) len(2) Cons by simp
    ultimately show ?thesis using f Cons kv
      by (simp add: member_text_pair quote_def parse_chars_quote)
  qed
qed

lemma stringify_JObj:
  "stringify (JObj kvs) = CHR ''{'' # commas (map member_text kvs) @ ''}''"
proof -
  have "(\<lambda>(k, v). quote k @ CHR '':'' # stringify v) = member_text"
    by (rule ext) (simp add: member_text_def case_prod_unfold)
  then show ?thesis by simp
qed

lemma parse_value_stringify:
  assumes "modelled v" and "length (stringify v) \<le> f" and "delimited r"
  shows "parse_value f (stringify v @ r) = Some (v, r)"
  using assms
proof (induction v arbitrary: f r)
  case JNull
  then obtain f' where "f = Suc f'" by (cases f) auto
  then show ?case by simp
next
  case (JBool b)
  then obtain f' where "f = Suc f'" by (cases f; cases b) auto
  then show ?case by (cases b) simp_all
next
  case (JNum i)
  then obtain f' where f: "f = Suc f'"
    using show_int_first [of i] by (cases f) auto
  obtain ch s where s: "show_int i = ch # s" "is_digit ch \<or> ch = CHR ''-''"
    using show_int_first [of i] by blast
  have "parse_value f (show_int i @ r) = parse_number (show_int i @ r)"
    using f s parse_value_number [of ch f' "s @ r"] by simp
  then show ?case using JNum.prems by (simp add: parse_number_show_int)
next
  case (JStr s)
  then obtain f' where "f = Suc f'" by (cases f) (auto simp: quote_def)
  then show ?case by (simp add: quote_def parse_chars_quote)
next
  case (JArr xs)
  from JArr.prems(2) obtain f' where f: "f = Suc f'" by (cases f) auto
  show ?case
  proof (cases "xs = []")
    case True
    with f show ?thesis by simp
  next
    case False
    have "\<forall>x \<in> set (map stringify xs). \<exists>ch s. x = ch # s \<and> ch \<noteq> CHR '']''"
    proof
      fix x assume "x \<in> set (map stringify xs)"
      then obtain v where "x = stringify v" by auto
      then show "\<exists>ch s. x = ch # s \<and> ch \<noteq> CHR '']''"
        using stringify_first [of v] by blast
    qed
    with False obtain ch s where cs: "commas (map stringify xs) = ch # s" "ch \<noteq> CHR '']''"
      using commas_first [of "map stringify xs" "\<lambda>ch. ch \<noteq> CHR '']''"] by auto
    have "parse_elements f' (commas (map stringify xs) @ CHR '']'' # r) = Some (xs, r)"
    proof (rule parse_elements_commas)
      fix x g r'
      assume "x \<in> set xs" "length (stringify x) \<le> g" "delimited r'"
      then show "parse_value g (stringify x @ r') = Some (x, r')"
        using JArr.IH [of x g r'] JArr.prems(1) by (simp add: list_all_iff)
    next
      show "xs \<noteq> []" by (rule False)
    next
      show "length (commas (map stringify xs)) < f'" using JArr.prems(2) f by simp
    qed
    then show ?thesis using f cs by simp
  qed
next
  case (JObj kvs)
  from JObj.prems(2) obtain f' where f: "f = Suc f'" by (cases f) auto
  show ?case
  proof (cases "kvs = []")
    case True
    with f show ?thesis by simp
  next
    case False
    have "\<forall>x \<in> set (map member_text kvs). \<exists>ch s. x = ch # s \<and> ch \<noteq> CHR ''}''"
      by (auto simp: member_text_def quote_def)
    with False obtain ch s where cs: "commas (map member_text kvs) = ch # s" "ch \<noteq> CHR ''}''"
      using commas_first [of "map member_text kvs" "\<lambda>ch. ch \<noteq> CHR ''}''"] by auto
    have "parse_members f' (commas (map member_text kvs) @ CHR ''}'' # r) = Some (kvs, r)"
    proof (rule parse_members_commas)
      fix kv g r'
      assume a: "kv \<in> set kvs" "length (stringify (snd kv)) \<le> g" "delimited r'"
      have "snd kv \<in> Basic_BNFs.snds kv" by (cases kv) simp
      moreover have "modelled (snd kv)" using JObj.prems(1) a(1) by (simp add: list_all_iff)
      ultimately show "parse_value g (stringify (snd kv) @ r') = Some (snd kv, r')"
        using JObj.IH [of kv "snd kv" g r'] a by simp
    next
      show "kvs \<noteq> []" by (rule False)
    next
      show "length (commas (map member_text kvs)) < f'"
        using JObj.prems(2) f by (simp add: stringify_JObj del: stringify.simps)
    qed
    then show ?thesis using f cs JObj.prems(1)
      by (simp add: stringify_JObj del: stringify.simps)
  qed
qed

lemma parse_stringify:
  assumes "modelled v"
  shows "parse (stringify v) = Some v"
  using parse_value_stringify [OF assms, of "length (stringify v)" "[]"]
  by (simp add: parse_def)

subsection \<open>Persisting and reloading\<close>

lemma distributor_json_inj: "distributor_json d = distributor_json d' \<longleftrightarrow> d = d'"
  by (cases d, cases d') (auto simp: distributor_json_def)

lemma distributors_json_inj: "distributors_json ds = distributors_json ds' \<longleftrightarrow> ds = ds'"
  by (simp add: distributors_json_def inj_map_eq_map inj_on_def distributor_json_inj)

lemma record_keys_ok: "keys_ok [''id'', ''fullName'', ''phone'', ''username'', ''module'']"
  by (simp add: keys_ok_def all_digits_def is_digit_def)

lemma modelled_distributors_json:
  assumes "\<forall>d \<in> set ds. \<bar>d_id d\<bar> \<le> 2 ^ 53"
  shows "modelled (distributors_json ds)"
  using assms record_keys_ok
  by (simp add: distributors_json_def distributor_json_def list_all_iff)

lemma stringify_not_Nil: "stringify v \<noteq> []"
  using stringify_first [of v] by auto

text \<open>
  C6. The effect writes the text of the list under the storage key, and the initial load
  reads it back. The text that \<open>stringify\<close> prints for the array of the records is read
  back by \<open>parse\<close> as that array, for every list of records with ids of at most \<open>2^53\<close>
  in absolute value. So, when the write goes through and the browser's
  \<^verbatim>\<open>JSON.stringify\<close> and \<^verbatim>\<open>JSON.parse\<close> are the functions that \<open>stringify\<close> and
  \<open>parse\<close> model, the load returns the array of exactly the records that were
  persisted. The list may be empty.
\<close>

theorem persist_load_roundtrip:
  assumes "\<not> blocked ls" and "\<not> full ls"
    and "\<forall>d \<in> set (distributors c). \<bar>d_id d\<bar> \<le> 2 ^ 53"
    and "\<forall>v. modelled v \<longrightarrow> JSON_stringify v = stringify v"
    and "\<forall>raw v. parse raw = Some v \<longrightarrow> JSON_parse raw = Inr v"
  shows "load JSON_parse (persist JSON_stringify ls c) = Inr (distributors_json (distributors c)) \<and>
         (\<forall>ds. distributors_json ds = distributors_json (distributors c) \<longrightarrow> ds = distributors c)"
proof -
  let ?v = "distributors_json (distributors c)"
  have m: "modelled ?v" using assms(3) by (rule modelled_distributors_json)
  then have s: "JSON_stringify ?v = stringify ?v" using assms(4) by simp
  have "parse (stringify ?v) = Some ?v" using m by (rule parse_stringify)
  then have p: "JSON_parse (stringify ?v) = Inr ?v" using assms(5) by simp
  have "isArray ?v" by (simp add: distributors_json_def)
  then show ?thesis using assms(1,2) s p
    by (simp add: load_cases persist_def setItem_def getItem_def stringify_not_Nil
          distributors_json_inj)
qed

theorem persist_load_roundtrip_witness:
  \<open>load (\<lambda>raw. case parse raw of None \<Rightarrow> Inl SyntaxError | Some v \<Rightarrow> Inr v)
      (persist stringify
         \<lparr>items = [STORAGE_KEY \<mapsto> ''[]''], blocked = False, full = False\<rparr>
         ((mount SAMPLE)\<lparr>distributors :=
            [\<lparr>d_id = 2, d_fullName = ''A B'', d_phone = ''123'', d_username = ''ab'',
              d_module = ''reports''\<rparr>,
             \<lparr>d_id = 1, d_fullName = ''Karthik Rao'', d_phone = ''+91 98765 12345'',
              d_username = ''karthik.rao'', d_module = ''dailySales''\<rparr>]\<rparr>))
     = Inr (distributors_json
            [\<lparr>d_id = 2, d_fullName = ''A B'', d_phone = ''123'', d_username = ''ab'',
              d_module = ''reports''\<rparr>,
             \<lparr>d_id = 1, d_fullName = ''Karthik Rao'', d_phone = ''+91 98765 12345'',
              d_username = ''karthik.rao'', d_module = ''dailySales''\<rparr>]) \<and>
   load (\<lambda>raw. case parse raw of None \<Rightarrow> Inl SyntaxError | Some v \<Rightarrow> Inr v)
      \<lparr>items = [STORAGE_KEY \<mapsto> ''[]''], blocked = False, full = False\<rparr>
     = Inr (JArr []) \<and>
   items (persist stringify
         \<lparr>items = [STORAGE_KEY \<mapsto> ''[]''], blocked = False, full = False\<rparr>
         ((mount SAMPLE)\<lparr>distributors :=
            [\<lparr>d_id = 2, d_fullName = ''A B'', d_phone = ''123'', d_username = ''ab'',
              d_module = ''reports''\<rparr>,
             \<lparr>d_id = 1, d_fullName = ''Karthik Rao'', d_phone = ''+91 98765 12345'',
              d_username = ''karthik.rao'', d_module = ''dailySales''\<rparr>]\<rparr>)) STORAGE_KEY
     = Some ''[{"id":2,"fullName":"A B","phone":"123","username":"ab","module":"reports"},{"id":1,"fullName":"Karthik Rao","phone":"+91 98765 12345","username":"karthik.rao","module":"dailySales"}]''\<close>
proof (intro conjI)
  show \<open>load (\<lambda>raw. case parse raw of None \<Rightarrow> Inl SyntaxError | Some v \<Rightarrow> Inr v)
      (persist stringify
         \<lparr>items = [STORAGE_KEY \<mapsto> ''[]''], blocked = False, full = False\<rparr>
         ((mount SAMPLE)\<lparr>distributors :=
            [\<lparr>d_id = 2, d_fullName = ''A B'', d_phone = ''123'', d_username = ''ab'',
              d_module = ''reports''\<rparr>,
             \<lparr>d_id = 1, d_fullName = ''Karthik Rao'', d_phone = ''+91 98765 12345'',
              d_username = ''karthik.rao'', d_module = ''dailySales''\<rparr>]\<rparr>))
     = Inr (distributors_json
            [\<lparr>d_id = 2, d_fullName = ''A B'', d_phone = ''123'', d_username = ''ab'',
              d_module = ''reports''\<rparr>,
             \<lparr>d_id = 1, d_fullName = ''Karthik Rao'', d_phone = ''+91 98765 12345'',
              d_username = ''karthik.rao'', d_module = ''dailySales''\<rparr>])\<close>
    using persist_load_roundtrip [of
        \<open>\<lparr>items = [STORAGE_KEY \<mapsto> ''[]''], blocked = False, full = False\<rparr>\<close>
        \<open>(mount SAMPLE)\<lparr>distributors :=
            [\<lparr>d_id = 2, d_fullName = ''A B'', d_phone = ''123'', d_username = ''ab'',
              d_module = ''reports''\<rparr>,
             \<lparr>d_id = 1, d_fullName = ''Karthik Rao'', d_phone = ''+91 98765 12345'',
              d_username = ''karthik.rao'', d_module = ''dailySales''\<rparr>]\<rparr>\<close>
        stringify
        \<open>\<lambda>raw. case parse raw of None \<Rightarrow> Inl SyntaxError | Some v \<Rightarrow> Inr v\<close>]
    by simp
  show \<open>load (\<lambda>raw. case parse raw of None \<Rightarrow> Inl SyntaxError | Some v \<Rightarrow> Inr v)
      \<lparr>items = [STORAGE_KEY \<mapsto> ''[]''], blocked = False, full = False\<rparr>
     = Inr (JArr [])\<close>
    by (simp add: load_cases getItem_def parse_def)
  show \<open>items (persist stringify
         \<lparr>items = [STORAGE_KEY \<mapsto> ''[]''], blocked = False, full = False\<rparr>
         ((mount SAMPLE)\<lparr>distributors :=
            [\<lparr>d_id = 2, d_fullName = ''A B'', d_phone = ''123'', d_username = ''ab'',
              d_module = ''reports''\<rparr>,
             \<lparr>d_id = 1, d_fullName = ''Karthik Rao'', d_phone = ''+91 98765 12345'',
              d_username = ''karthik.rao'', d_module = ''dailySales''\<rparr>]\<rparr>)) STORAGE_KEY
     = Some ''[{"id":2,"fullName":"A B","phone":"123","username":"ab","module":"reports"},{"id":1,"fullName":"Karthik Rao","phone":"+91 98765 12345","username":"karthik.rao","module":"dailySales"}]''\<close>
  proof -
    have "digit_char 1 = CHR ''1''" "digit_char 2 = CHR ''2''"
      by code_simp+
    then show ?thesis
      by (simp add: persist_def setItem_def distributors_json_def distributor_json_def
            quote_def escape_def show_int_def show_digits.simps)
  qed
qed

subsection \<open>The password stays in the form\<close>

text \<open>
  C7. The record that \<^verbatim>\<open>handleSave\<close> builds is the object with the five properties
  \<open>id\<close>, \<open>fullName\<close>, \<open>phone\<close>, \<open>username\<close> and \<open>module\<close>, made of the list and of four
  inputs of the form; the password and its confirmation are no part of it. Two accepted
  submissions that differ in the password and its confirmation only give the same list
  of distributors and the same content of the storage.
\<close>

theorem password_not_stored:
  assumes "validate c = []" and "validate (c\<lparr>password := p, confirmPassword := q\<rparr>) = []"
  shows "distributors (handleSave (c\<lparr>password := p, confirmPassword := q\<rparr>))
           = distributors (handleSave c) \<and>
         persist JSON_stringify ls (handleSave (c\<lparr>password := p, confirmPassword := q\<rparr>))
           = persist JSON_stringify ls (handleSave c) \<and>
         (\<exists>newDist. distributors (handleSave c) = newDist # distributors c \<and>
            distributor_json newDist =
              JObj [(''id'', JNum (if distributors c = [] then 1
                                   else js_add (Max (set (map d_id (distributors c)))) 1)),
                    (''fullName'', JStr (trim (fullName c))),
                    (''phone'', JStr (trim (phone c))),
                    (''username'', JStr (trim (username c))),
                    (''module'', JStr (selectedModule c))])"
  using assms by (simp add: handleSave_valid persist_def distributor_json_def)

theorem password_not_stored_witness:
  "distributors (handleSave ((mount SAMPLE)\<lparr>fullName := ''A B'', phone := ''123'',
      username := ''ab'', password := ''secret'', confirmPassword := ''secret'',
      selectedModule := ''reports''\<rparr>))
   = distributors (handleSave ((mount SAMPLE)\<lparr>fullName := ''A B'', phone := ''123'',
      username := ''ab'', password := ''x'', confirmPassword := ''x'',
      selectedModule := ''reports''\<rparr>))"
  using password_not_stored [of "(mount SAMPLE)\<lparr>fullName := ''A B'', phone := ''123'',
      username := ''ab'', password := ''x'', confirmPassword := ''x'', selectedModule := ''reports''\<rparr>"
      "''secret''" "''secret''"]
  by (simp add: mount_def validate_Nil_iff trim_def is_white_space_def)

subsection \<open>The invariant of the record store\<close>

lemma store_invariant_SAMPLE: "store_invariant SAMPLE"
  by (simp add: store_invariant_def SAMPLE_def module_keys_def ACCESS_MODULES_def)

lemma store_invariant_bounded: "store_invariant ds \<Longrightarrow> bounded_invariant ds"
  by (simp add: store_invariant_def bounded_invariant_def distinct_map_filter)

lemma bounded_invariant_store:
  "bounded_invariant ds \<Longrightarrow> \<forall>d \<in> set ds. \<bar>d_id d\<bar> < 2 ^ 53 \<Longrightarrow> store_invariant ds"
proof -
  assume b: "bounded_invariant ds" and s: "\<forall>d \<in> set ds. \<bar>d_id d\<bar> < 2 ^ 53"
  from s have "filter (\<lambda>d. \<bar>d_id d\<bar> < 2 ^ 53) ds = ds" by (simp add: filter_id_conv)
  with b show "store_invariant ds" by (simp add: store_invariant_def bounded_invariant_def)
qed

lemma key_in_module_keys:
  "m \<in> set ACCESS_MODULES \<Longrightarrow> key m \<noteq> [] \<and> key m \<in> set module_keys"
  by (auto simp: module_keys_def ACCESS_MODULES_def)

text \<open>
  A new id below \<open>2^53\<close> in absolute value was computed without rounding, and is above
  every id of the list.
\<close>

lemma nextId_fresh:
  assumes "\<bar>js_add (Max (set (map d_id ds))) 1\<bar> < 2 ^ 53"
  shows "js_add (Max (set (map d_id ds))) 1 \<notin> d_id ` set ds"
proof
  assume "js_add (Max (set (map d_id ds))) 1 \<in> d_id ` set ds"
  then obtain d where d: "d \<in> set ds" "d_id d = js_add (Max (set (map d_id ds))) 1" by auto
  have "js_add (Max (set (map d_id ds))) 1 = Max (set (map d_id ds)) + 1"
    using assms by (rule js_add_below)
  with d Max_id_ge [OF d(1)] show False by simp
qed

lemma bounded_invariant_handleSave:
  assumes "bounded_invariant (distributors c)"
    and "selectedModule c = [] \<or> selectedModule c \<in> set module_keys"
  shows "bounded_invariant (distributors (handleSave c))"
proof (cases "validate c = []")
  case False
  then show ?thesis using assms(1) by (simp add: handleSave_invalid)
next
  case True
  then have m: "selectedModule c \<noteq> []" by (simp add: validate_Nil_iff)
  show ?thesis using True m assms nextId_fresh [of "distributors c"]
    by (auto simp: handleSave_valid bounded_invariant_def)
qed

lemma bounded_invariant_handleDelete:
  assumes "bounded_invariant (distributors c)"
  shows "bounded_invariant (distributors (handleDelete confirmed i c))"
proof (cases confirmed)
  case False
  with assms show ?thesis by (simp add: handleDelete_def)
next
  case True
  have "filter (\<lambda>d. \<bar>d_id d\<bar> < 2 ^ 53) (filter (\<lambda>d. d_id d \<noteq> i) (distributors c))
      = filter (\<lambda>d. d_id d \<noteq> i) (filter (\<lambda>d. \<bar>d_id d\<bar> < 2 ^ 53) (distributors c))"
    by (simp add: conj_commute)
  moreover have "distinct (map d_id
      (filter (\<lambda>d. d_id d \<noteq> i) (filter (\<lambda>d. \<bar>d_id d\<bar> < 2 ^ 53) (distributors c))))"
  proof (rule distinct_map_filter)
    show "distinct (map d_id (filter (\<lambda>d. \<bar>d_id d\<bar> < 2 ^ 53) (distributors c)))"
      using assms by (simp add: bounded_invariant_def)
  qed
  ultimately have "distinct (map d_id
      (filter (\<lambda>d. \<bar>d_id d\<bar> < 2 ^ 53) (filter (\<lambda>d. d_id d \<noteq> i) (distributors c))))"
    by (simp only:)
  moreover have "list_all (\<lambda>d. d_module d \<noteq> [] \<and> d_module d \<in> set module_keys)
      (filter (\<lambda>d. d_id d \<noteq> i) (distributors c))"
    using assms by (simp add: bounded_invariant_def list_all_iff)
  ultimately show ?thesis using True
    unfolding bounded_invariant_def handleDelete_def by (simp del: filter_filter)
qed

lemma selectedModule_handleSave: "selectedModule (handleSave c) = selectedModule c"
  by (simp add: handleSave_def Let_def)

text \<open>
  The invariant is kept together with a second one: the selected module is empty or the
  key of a tile.
\<close>

lemma reachable_invariants:
  assumes "reachable ds0 c" and "bounded_invariant ds0"
  shows "bounded_invariant (distributors c) \<and>
         (selectedModule c = [] \<or> selectedModule c \<in> set module_keys)"
  using assms
proof (induction rule: reachable.induct)
  case mounted
  then show ?case by (simp add: mount_def)
next
  case (submit c)
  then show ?case by (simp add: bounded_invariant_handleSave selectedModule_handleSave)
next
  case (delete c d confirmed)
  then show ?case
    using bounded_invariant_handleDelete [of c confirmed "d_id d"] by (simp add: handleDelete_def)
next
  case (setSelectedModule c m)
  then show ?case using key_in_module_keys by simp
qed (simp_all add: resetForm_def)

text \<open>
  C3, as stated, counts the initial load among the operations that keep the invariant, and
  has the invariant in every reachable state. The load returns a stored array as it is:
  from a storage that holds two records with the id 1, one of them with the module
  \<^verbatim>\<open>"admin"\<close>, the page mounts with a list whose ids are not unique and whose modules
  are not all of the fixed set. And from a stored list that has the invariant, with one
  record of the id \<open>2^53 = 9007199254740992\<close>, one submission leads to two records with
  that id.
\<close>

theorem store_invariant_counterexample:
  \<open>load (\<lambda>raw. Inr (distributors_json
            [\<lparr>d_id = 1, d_fullName = ''A'', d_phone = ''1'', d_username = ''a'', d_module = ''admin''\<rparr>,
             \<lparr>d_id = 1, d_fullName = ''B'', d_phone = ''2'', d_username = ''b'', d_module = ''reports''\<rparr>]))
      \<lparr>items = [STORAGE_KEY \<mapsto>
         ''[{"id":1,"fullName":"A","phone":"1","username":"a","module":"admin"},{"id":1,"fullName":"B","phone":"2","username":"b","module":"reports"}]''],
       blocked = False, full = False\<rparr>
     = Inr (distributors_json
            [\<lparr>d_id = 1, d_fullName = ''A'', d_phone = ''1'', d_username = ''a'', d_module = ''admin''\<rparr>,
             \<lparr>d_id = 1, d_fullName = ''B'', d_phone = ''2'', d_username = ''b'', d_module = ''reports''\<rparr>]) \<and>
   reachable
     [\<lparr>d_id = 1, d_fullName = ''A'', d_phone = ''1'', d_username = ''a'', d_module = ''admin''\<rparr>,
      \<lparr>d_id = 1, d_fullName = ''B'', d_phone = ''2'', d_username = ''b'', d_module = ''reports''\<rparr>]
     (mount
       [\<lparr>d_id = 1, d_fullName = ''A'', d_phone = ''1'', d_username = ''a'', d_module = ''admin''\<rparr>,
        \<lparr>d_id = 1, d_fullName = ''B'', d_phone = ''2'', d_username = ''b'', d_module = ''reports''\<rparr>]) \<and>
   \<not> distinct (map d_id (distributors (mount
       [\<lparr>d_id = 1, d_fullName = ''A'', d_phone = ''1'', d_username = ''a'', d_module = ''admin''\<rparr>,
        \<lparr>d_id = 1, d_fullName = ''B'', d_phone = ''2'', d_username = ''b'', d_module = ''reports''\<rparr>]))) \<and>
   \<not> store_invariant (distributors (mount
       [\<lparr>d_id = 1, d_fullName = ''A'', d_phone = ''1'', d_username = ''a'', d_module = ''admin''\<rparr>,
        \<lparr>d_id = 1, d_fullName = ''B'', d_phone = ''2'', d_username = ''b'', d_module = ''reports''\<rparr>])) \<and>
   store_invariant
     [\<lparr>d_id = 9007199254740992, d_fullName = ''A'', d_phone = ''1'', d_username = ''a'',
       d_module = ''reports''\<rparr>] \<and>
   reachable
     [\<lparr>d_id = 9007199254740992, d_fullName = ''A'', d_phone = ''1'', d_username = ''a'',
       d_module = ''reports''\<rparr>]
     (handleSave ((mount
       [\<lparr>d_id = 9007199254740992, d_fullName = ''A'', d_phone = ''1'', d_username = ''a'',
         d_module = ''reports''\<rparr>])\<lparr>fullName := ''A B'', phone := ''123'', username := ''ab'',
        password := ''x'', confirmPassword := ''x'',
        selectedModule := key \<lparr>key = ''reports'', title = ''Reports'',
                                desc = ''View analytics and downloads.''\<rparr>\<rparr>)) \<and>
   map d_id (distributors (handleSave ((mount
       [\<lparr>d_id = 9007199254740992, d_fullName = ''A'', d_phone = ''1'', d_username = ''a'',
         d_module = ''reports''\<rparr>])\<lparr>fullName := ''A B'', phone := ''123'', username := ''ab'',
        password := ''x'', confirmPassword := ''x'',
        selectedModule := key \<lparr>key = ''reports'', title = ''Reports'',
                                desc = ''View analytics and downloads.''\<rparr>\<rparr>)))
     = [9007199254740992, 9007199254740992]\<close>
proof -
  let ?big = "[\<lparr>d_id = 9007199254740992, d_fullName = ''A'', d_phone = ''1'', d_username = ''a'',
       d_module = ''reports''\<rparr>]"
  let ?m = "\<lparr>key = ''reports'', title = ''Reports'', desc = ''View analytics and downloads.''\<rparr>"
  have "reachable ?big (mount ?big)" by (rule reachable.mounted)
  then have "reachable ?big ((mount ?big)\<lparr>fullName := ''A B''\<rparr>)"
    by (rule reachable.setFullName)
  then have "reachable ?big ((mount ?big)\<lparr>fullName := ''A B'', phone := ''123''\<rparr>)"
    by (rule reachable.setPhone)
  then have "reachable ?big ((mount ?big)\<lparr>fullName := ''A B'', phone := ''123'',
      username := ''ab''\<rparr>)"
    by (rule reachable.setUsername)
  then have "reachable ?big ((mount ?big)\<lparr>fullName := ''A B'', phone := ''123'',
      username := ''ab'', password := ''x''\<rparr>)"
    by (rule reachable.setPassword)
  then have "reachable ?big ((mount ?big)\<lparr>fullName := ''A B'', phone := ''123'',
      username := ''ab'', password := ''x'', confirmPassword := ''x''\<rparr>)"
    by (rule reachable.setConfirmPassword)
  moreover have "?m \<in> set ACCESS_MODULES" by (simp add: ACCESS_MODULES_def)
  ultimately have "reachable ?big ((mount ?big)\<lparr>fullName := ''A B'', phone := ''123'',
      username := ''ab'', password := ''x'', confirmPassword := ''x'', selectedModule := key ?m\<rparr>)"
    by (rule reachable.setSelectedModule)
  then have saved: "reachable ?big (handleSave ((mount ?big)\<lparr>fullName := ''A B'', phone := ''123'',
      username := ''ab'', password := ''x'', confirmPassword := ''x'', selectedModule := key ?m\<rparr>))"
    by (rule reachable.submit)
  have ids: "map d_id (distributors (handleSave ((mount ?big)\<lparr>fullName := ''A B'', phone := ''123'',
      username := ''ab'', password := ''x'', confirmPassword := ''x'', selectedModule := key ?m\<rparr>)))
      = [9007199254740992, 9007199254740992]"
    by (simp add: handleSave_valid validate_Nil_iff mount_def trim_def is_white_space_def
          js_add_2_53)
  have inv: "store_invariant ?big"
    by (simp add: store_invariant_def module_keys_def ACCESS_MODULES_def)
  show ?thesis
  proof (intro conjI)
    show "store_invariant ?big" by (rule inv)
  qed (use saved ids in \<open>simp_all add: load_cases getItem_def distributors_json_def
         reachable.mounted store_invariant_def\<close>, simp_all add: mount_def)
qed

text \<open>
  C3, amended. When the initial load has returned the seed list, or a stored list whose
  ids are unique and whose modules are non-empty keys of the fixed set, every state that
  the page reaches from there has a list of distributors (the list that the effect
  persists) in which every module is a non-empty key of the fixed set and no two records
  share an id below \<open>2^53\<close> in absolute value. So the ids are unique in every such state
  whose ids are all below \<open>2^53\<close> in absolute value.
\<close>

theorem store_invariant_reachable:
  assumes "load JSON_parse ls = Inr (distributors_json ds0)" and "reachable ds0 c"
    and "load JSON_parse ls = Inr (distributors_json SAMPLE) \<or> store_invariant ds0"
  shows "bounded_invariant (distributors c) \<and>
         ((\<forall>d \<in> set (distributors c). \<bar>d_id d\<bar> < 2 ^ 53) \<longrightarrow> store_invariant (distributors c))"
proof -
  have "store_invariant ds0"
    using assms(1,3) store_invariant_SAMPLE by (auto simp: distributors_json_inj)
  then have "bounded_invariant ds0" by (rule store_invariant_bounded)
  with assms(2) have "bounded_invariant (distributors c)" by (simp add: reachable_invariants)
  then show ?thesis using bounded_invariant_store by blast
qed

theorem store_invariant_reachable_witness:
  "store_invariant (distributors (handleDelete True 1 (handleSave ((mount SAMPLE)\<lparr>fullName := ''A B'',
      phone := ''123'', username := ''ab'', password := ''x'', confirmPassword := ''x'',
      selectedModule :=
        key \<lparr>key = ''reports'', title = ''Reports'', desc = ''View analytics and downloads.''\<rparr>\<rparr>))))"
proof -
  let ?m = "\<lparr>key = ''reports'', title = ''Reports'', desc = ''View analytics and downloads.''\<rparr>"
  let ?seed = "\<lparr>d_id = 1, d_fullName = ''Karthik Rao'', d_phone = ''+91 98765 12345'',
      d_username = ''karthik.rao'', d_module = ''dailySales''\<rparr>"
  let ?filled = "(mount SAMPLE)\<lparr>fullName := ''A B'', phone := ''123'', username := ''ab'',
      password := ''x'', confirmPassword := ''x'', selectedModule := key ?m\<rparr>"
  have "reachable SAMPLE (mount SAMPLE)" by (rule reachable.mounted)
  then have "reachable SAMPLE ((mount SAMPLE)\<lparr>fullName := ''A B''\<rparr>)"
    by (rule reachable.setFullName)
  then have "reachable SAMPLE ((mount SAMPLE)\<lparr>fullName := ''A B'', phone := ''123''\<rparr>)"
    by (rule reachable.setPhone)
  then have "reachable SAMPLE ((mount SAMPLE)\<lparr>fullName := ''A B'', phone := ''123'',
      username := ''ab''\<rparr>)"
    by (rule reachable.setUsername)
  then have "reachable SAMPLE ((mount SAMPLE)\<lparr>fullName := ''A B'', phone := ''123'',
      username := ''ab'', password := ''x''\<rparr>)"
    by (rule reachable.setPassword)
  then have "reachable SAMPLE ((mount SAMPLE)\<lparr>fullName := ''A B'', phone := ''123'',
      username := ''ab'', password := ''x'', confirmPassword := ''x''\<rparr>)"
    by (rule reachable.setConfirmPassword)
  moreover have "?m \<in> set ACCESS_MODULES" by (simp add: ACCESS_MODULES_def)
  ultimately have "reachable SAMPLE ?filled"
    by (rule reachable.setSelectedModule)
  then have saved: "reachable SAMPLE (handleSave ?filled)"
    by (rule reachable.submit)
  have after: "distributors (handleSave ?filled) =
      [\<lparr>d_id = 2, d_fullName = ''A B'', d_phone = ''123'', d_username = ''ab'',
        d_module = ''reports''\<rparr>, ?seed]"
    by (simp add: handleSave_valid validate_Nil_iff mount_def SAMPLE_def trim_def
          is_white_space_def js_add_exact)
  then have "?seed \<in> set (distributors (handleSave ?filled))" by simp
  with saved have "reachable SAMPLE (handleDelete True (d_id ?seed) (handleSave ?filled))"
    by (rule reachable.delete)
  then have deleted: "reachable SAMPLE (handleDelete True 1 (handleSave ?filled))"
    by simp
  have loaded: "load (\<lambda>raw. Inl SyntaxError) \<lparr>items = Map.empty, blocked = False, full = False\<rparr>
      = Inr (distributors_json SAMPLE)"
    by (simp add: load_cases getItem_def)
  have small: "\<forall>d \<in> set (distributors (handleDelete True 1 (handleSave ?filled))). \<bar>d_id d\<bar> < 2 ^ 53"
    using after by (simp add: handleDelete_def)
  show ?thesis
    using store_invariant_reachable [OF loaded deleted] loaded small by blast
qed

end
